theory Spec2Isabelle
  imports Complex_Main
begin

section \<open>Data model of \<open>dcim/models/cables.py\<close>\<close>

text \<open>
  Exceptions of the Python code are values. \<open>AssertionError\<close> is a failed \<open>assert\<close>,
  \<open>IndexError\<close> an index into an empty list or QuerySet, \<open>AttributeError\<close> an attribute
  read on an object whose class does not have it, \<open>TypeError\<close> an iteration over
  \<open>None\<close>, \<open>DoesNotExist\<close> a failed
  \<open>objects.get(pk=...)\<close>.
\<close>

datatype error = AssertionError | IndexError | AttributeError | TypeError | DoesNotExist

text \<open>
  The model classes a path can mention. The six classes that only ever end a path
  (the last \<open>else\<close> of Step 6) are collected in \<open>endpoint_class\<close>.
\<close>

datatype endpoint_class =
  Interface | ConsolePort | ConsoleServerPort | PowerPort | PowerOutlet | PowerFeed

datatype content_type =
    EndpointCT endpoint_class
  | FrontPortCT
  | RearPortCT
  | CircuitTerminationCT
  | CableCT
  | WirelessLinkCT
  | ProviderNetworkCT
  | SiteCT

text \<open>The parent of a termination (\<open>parent_object\<close>): a device, a circuit or a power panel.\<close>

datatype parent = Device nat | Circuit nat | PowerPanel nat

text \<open>A path node: the pair of a content type and a primary key.\<close>

type_synonym node = "content_type \<times> nat"

datatype side = SideA | SideZ

datatype cable_end_choice = EndA | EndB

record front_port =
  fp_pk :: nat
  rear_port_id :: nat
  rear_port_position :: nat

record rear_port =
  rp_pk :: nat
  positions :: nat

record circuit_termination =
  ct_pk :: nat
  circuit :: nat
  term_side :: side
  provider_network :: "nat option"
  site :: "nat option"
  cable :: "nat option"

text \<open>
  A termination object: an instance of a model a Cable or WirelessLink can attach to
  (NetBox's \<open>CabledObjectModel\<close> classes).
\<close>

datatype cabled_object =
    PathEndpoint endpoint_class nat
  | FrontPort front_port
  | RearPort rear_port
  | CircuitTermination circuit_termination

record cable_row =
  cable_pk :: nat
  cable_status :: string
  abs_length :: "rat option"

record wireless_link =
  wl_pk :: nat
  interface_a :: cabled_object
  interface_b :: cabled_object
  wl_status :: string

datatype link = Cable cable_row | WirelessLink wireless_link

text \<open>
  A row of \<open>CableTermination\<close>. The generic foreign key \<open>termination\<close> is held resolved
  (field \<open>ct_termination\<close>);
  the columns \<open>termination_type\<close> and \<open>termination_id\<close> are read off it below.
\<close>

record cable_termination =
  ct_cable :: nat
  cable_end :: cable_end_choice
  ct_termination :: cabled_object

text \<open>
  The database the trace reads. Each \<open>objects\<close> manager is the list of its rows in the
  model's default ordering, so \<open>Model.objects.filter(...)\<close> is \<open>filter\<close> over that list
  and keeps the order. The attributes \<open>link\<close> and \<open>parent_object\<close> of a termination are
  declared in \<open>dcim/models/device_components.py\<close>, outside the sources verified here, and are
  parameters here.
\<close>

record topology =
  link_of :: "cabled_object \<Rightarrow> link option"
  parent_object :: "cabled_object \<Rightarrow> parent"
  cables :: "cable_row list"
  wireless_links :: "wireless_link list"
  cable_terminations :: "cable_termination list"
  path_endpoints :: "(endpoint_class \<times> nat) list"
  front_ports :: "front_port list"
  rear_ports :: "rear_port list"
  circuit_terminations :: "circuit_termination list"
  provider_networks :: "nat list"
  sites :: "nat list"

definition STATUS_CONNECTED :: string where
  "STATUS_CONNECTED = ''connected''"

fun pk_of :: "cabled_object \<Rightarrow> nat" where
  "pk_of (PathEndpoint k i) = i"
| "pk_of (FrontPort fp) = fp_pk fp"
| "pk_of (RearPort rp) = rp_pk rp"
| "pk_of (CircuitTermination ct) = ct_pk ct"

fun type_of :: "cabled_object \<Rightarrow> content_type" where
  "type_of (PathEndpoint k i) = EndpointCT k"
| "type_of (FrontPort fp) = FrontPortCT"
| "type_of (RearPort rp) = RearPortCT"
| "type_of (CircuitTermination ct) = CircuitTerminationCT"

text \<open>
  Modelled from the spec: \<open>object_to_path_node\<close> of \<open>dcim/utils.py\<close>, which is outside
  the sources verified here. The spec's \<open>encode\<close> combines the entity's type tag and its numeric
  identity so that entities of different type never collide; the node is that pair.
\<close>

definition object_to_path_node :: "cabled_object \<Rightarrow> node" where
  "object_to_path_node t = (type_of t, pk_of t)"

fun link_to_path_node :: "link \<Rightarrow> node" where
  "link_to_path_node (Cable c) = (CableCT, cable_pk c)"
| "link_to_path_node (WirelessLink w) = (WirelessLinkCT, wl_pk w)"

fun link_status :: "link \<Rightarrow> string" where
  "link_status (Cable c) = cable_status c"
| "link_status (WirelessLink w) = wl_status w"

text \<open>\<open>isinstance(t, type(t0))\<close>: the model classes are siblings, so this is class equality.\<close>

definition isinstance_of :: "cabled_object \<Rightarrow> cabled_object \<Rightarrow> bool" where
  "isinstance_of t t0 = (type_of t = type_of t0)"

definition termination_type :: "cable_termination \<Rightarrow> content_type" where
  "termination_type ct = type_of (ct_termination ct)"

definition termination_id :: "cable_termination \<Rightarrow> nat" where
  "termination_id ct = pk_of (ct_termination ct)"

text \<open>Attribute reads that exist on one class only; \<open>None\<close> is Python's AttributeError.\<close>

fun get_rear_port_id :: "cabled_object \<Rightarrow> nat option" where
  "get_rear_port_id (FrontPort fp) = Some (rear_port_id fp)"
| "get_rear_port_id _ = None"

fun get_rear_port_position :: "cabled_object \<Rightarrow> nat option" where
  "get_rear_port_position (FrontPort fp) = Some (rear_port_position fp)"
| "get_rear_port_position _ = None"

fun get_term_side :: "cabled_object \<Rightarrow> side option" where
  "get_term_side (CircuitTermination ct) = Some (term_side ct)"
| "get_term_side _ = None"

fun those_attrs :: "'a option list \<Rightarrow> 'a list option" where
  "those_attrs [] = Some []"
| "those_attrs (None # xs) = None"
| "those_attrs (Some x # xs) = (case those_attrs xs of None \<Rightarrow> None | Some ys \<Rightarrow> Some (x # ys))"

section \<open>\<open>CablePath\<close>\<close>

text \<open>
  An object a path node can denote (the result of \<open>path_node_to_object\<close>, and an element
  of the cached \<open>_path_objects\<close>).
\<close>

datatype path_object =
    TerminationObject cabled_object
  | LinkObject link
  | ProviderNetworkObject nat
  | SiteObject nat

text \<open>
  A \<open>CablePath\<close> instance. \<open>pk\<close> is \<open>None\<close> until the first save; \<open>nodes\<close> is the field
  \<open>_nodes\<close>, which has no default and is \<open>None\<close> until \<open>save\<close> fills it;
  \<open>path_objects_cache\<close> is the attribute \<open>_path_objects\<close>, absent (\<open>None\<close>) until
  \<open>path_objects\<close> has been read.
\<close>

record cable_path =
  pk :: "nat option"
  path :: "node list list"
  is_active :: bool
  is_complete :: bool
  is_split :: bool
  nodes :: "node list option"
  path_objects_cache :: "path_object list list option"

text \<open>
  The local variables of \<open>from_origin\<close> at the head of its \<open>while\<close> loop, and one fact
  about the objects in \<open>terminations\<close>. Python objects have identity, and Step 4 tests
  \<open>link.interface_a is terminations[0]\<close>. \<open>st_shared\<close> says whether \<open>terminations[0]\<close> is
  the very object that its link holds as \<open>interface_a\<close>. That can be so only for the
  objects a caller passes in: the objects the QuerySets of Step 6 return are newly built,
  and so are the origins \<open>retrace\<close> reads.
\<close>

record trace_state =
  st_terminations :: "cabled_object list"
  st_path :: "node list list"
  st_position_stack :: "nat list list"
  st_is_complete :: bool
  st_is_active :: bool
  st_is_split :: bool
  st_shared :: bool

text \<open>What one run of the loop body does next.\<close>

datatype outcome = Continue trace_state | Break trace_state | ReturnNone

text \<open>
  Step 4 of \<open>from_origin\<close>: the far-end terminations of the link. \<open>t0\<close> is
  \<open>terminations[0]\<close>. \<open>link.interface_a is terminations[0]\<close> compares object identity: it
  holds when \<open>terminations[0]\<close> is the object the link holds (\<open>shared\<close>), which is then
  the same interface; two objects of the same interface are not identical.
\<close>

definition far_end :: "topology \<Rightarrow> bool \<Rightarrow> cabled_object \<Rightarrow> cabled_object list \<Rightarrow> link \<Rightarrow> error + cabled_object list" where
  "far_end db shared t0 ts l =
     (case l of
        Cable c \<Rightarrow>
          (case filter (\<lambda>ct. termination_type ct = type_of t0 \<and> termination_id ct \<in> set (map pk_of ts))
                       (cable_terminations db) of
             [] \<Rightarrow> Inl IndexError
           | ct0 # cts \<Rightarrow>
               if \<not> list_all (\<lambda>ct. cable_end ct = cable_end ct0) cts then Inl AssertionError
               else Inr (map ct_termination
                          (filter (\<lambda>ct. ct_cable ct = cable_pk c \<and>
                                         cable_end ct = (if cable_end ct0 = EndB then EndA else EndB))
                                  (cable_terminations db))))
      | WirelessLink w \<Rightarrow>
          Inr (if shared \<and> interface_a w = t0 then [interface_b w] else [interface_a w]))"

text \<open>
  Step 6 of \<open>from_origin\<close>: the next hop, from the far-end terminations. The state \<open>s\<close>
  already holds the path with the far-end hop-group appended (Step 5).
\<close>

definition next_hop :: "topology \<Rightarrow> trace_state \<Rightarrow> cabled_object list \<Rightarrow> error + outcome" where
  "next_hop db s remote_terminations =
     (case remote_terminations of
        [] \<Rightarrow> Inl IndexError
      | FrontPort fp0 # rest \<Rightarrow>
          (case those_attrs (map get_rear_port_id remote_terminations) of
             None \<Rightarrow> Inl AttributeError
           | Some ids \<Rightarrow>
               (let rps = filter (\<lambda>rp. rp_pk rp \<in> set ids) (rear_ports db) in
                if length rps > 1 then
                  (if \<not> list_all (\<lambda>rp. positions rp = 1) rps then Inl AssertionError
                   else Inr (Continue (s\<lparr>st_terminations := map RearPort rps\<rparr>)))
                else
                  (case rps of
                     [] \<Rightarrow> Inl IndexError
                   | rp0 # _ \<Rightarrow>
                       if positions rp0 > 1 then
                         (case those_attrs (map get_rear_port_position remote_terminations) of
                            None \<Rightarrow> Inl AttributeError
                          | Some ps \<Rightarrow>
                              Inr (Continue (s\<lparr>st_terminations := map RearPort rps,
                                               st_position_stack := st_position_stack s @ [ps]\<rparr>)))
                       else Inr (Continue (s\<lparr>st_terminations := map RearPort rps\<rparr>)))))
      | RearPort rp0 # rest \<Rightarrow>
          if length remote_terminations > 1 \<or> positions rp0 = 1 then
            Inr (Continue (s\<lparr>st_terminations :=
                   map FrontPort
                     (filter (\<lambda>fp. rear_port_id fp \<in> set (map pk_of remote_terminations) \<and>
                                    rear_port_position fp = 1)
                             (front_ports db))\<rparr>))
          else if st_position_stack s \<noteq> [] then
            Inr (Continue (s\<lparr>st_terminations :=
                   map FrontPort
                     (filter (\<lambda>fp. rear_port_id fp = rp_pk rp0 \<and>
                                    rear_port_position fp \<in> set (last (st_position_stack s)))
                             (front_ports db)),
                   st_position_stack := butlast (st_position_stack s)\<rparr>))
          else Inr (Break (s\<lparr>st_is_split := True\<rparr>))
      | CircuitTermination ct0 # rest \<Rightarrow>
          (case those_attrs (map get_term_side rest) of
             None \<Rightarrow> Inl AttributeError
           | Some sides \<Rightarrow>
               if \<not> list_all (\<lambda>sd. sd = term_side ct0) sides then Inl AssertionError
               else
                 (case filter (\<lambda>ct. circuit ct = circuit ct0 \<and>
                                     term_side ct = (if term_side ct0 = SideA then SideZ else SideA))
                              (circuit_terminations db) of
                    [] \<Rightarrow> Inr (Break s)
                  | circuit_termination # _ \<Rightarrow>
                      (case provider_network circuit_termination of
                         Some pn \<Rightarrow>
                           Inr (Break (s\<lparr>st_path := st_path s @
                                  [[object_to_path_node (CircuitTermination circuit_termination)],
                                   [(ProviderNetworkCT, pn)]]\<rparr>))
                       | None \<Rightarrow>
                           (case site circuit_termination of
                              Some si \<Rightarrow>
                                if cable circuit_termination = None then
                                  Inr (Break (s\<lparr>st_path := st_path s @
                                         [[object_to_path_node (CircuitTermination circuit_termination)],
                                          [(SiteCT, si)]]\<rparr>))
                                else Inr (Continue (s\<lparr>st_terminations :=
                                                       [CircuitTermination circuit_termination]\<rparr>))
                            | None \<Rightarrow>
                                Inr (Continue (s\<lparr>st_terminations :=
                                                  [CircuitTermination circuit_termination]\<rparr>))))))
      | PathEndpoint k i # rest \<Rightarrow> Inr (Break (s\<lparr>st_is_complete := True\<rparr>)))"

text \<open>
  The body of the \<open>while\<close> loop (Steps 1 to 6), run on a state whose \<open>terminations\<close> are
  not empty. Whatever Step 6 assigns to \<open>terminations\<close> is newly built, so \<open>st_shared\<close> is
  \<open>False\<close> from then on.
\<close>

definition loop_body :: "topology \<Rightarrow> trace_state \<Rightarrow> error + outcome" where
  "loop_body db s =
     (case st_terminations s of
        [] \<Rightarrow> Inl IndexError
      | t0 # rest \<Rightarrow>
          if \<not> list_all (\<lambda>t. isinstance_of t t0) rest then Inl AssertionError
          else if \<not> list_all (\<lambda>t. parent_object db t = parent_object db t0) rest then Inl AssertionError
          else
            (let path1 = st_path s @ [map object_to_path_node (st_terminations s)] in
             if \<not> list_all (\<lambda>t. link_of db t = link_of db t0) rest then Inl AssertionError
             else
               (case link_of db t0 of
                  None \<Rightarrow>
                    if length path1 = 1 then Inr ReturnNone
                    else Inr (Break (s\<lparr>st_path := path1\<rparr>))
                | Some l \<Rightarrow>
                    (let path2 = path1 @ [[link_to_path_node l]];
                         active = (if link_status l \<noteq> STATUS_CONNECTED then False else st_is_active s)
                     in case far_end db (st_shared s) t0 (st_terminations s) l of
                          Inl e \<Rightarrow> Inl e
                        | Inr remote_terminations \<Rightarrow>
                            next_hop db
                              (s\<lparr>st_path := path2 @ [map object_to_path_node remote_terminations],
                                 st_is_active := active, st_shared := False\<rparr>)
                              remote_terminations))))"

text \<open>The \<open>return cls(...)\<close> after the loop.\<close>

definition new_cable_path :: "trace_state \<Rightarrow> cable_path" where
  "new_cable_path s =
     \<lparr>pk = None, path = st_path s, is_active = st_is_active s, is_complete = st_is_complete s,
      is_split = st_is_split s, nodes = None, path_objects_cache = None\<rparr>"

text \<open>
  The \<open>while terminations:\<close> loop. It has no bound in the source, so the model is a
  partial function: \<open>None\<close> is a loop that never returns.
\<close>

partial_function (option) trace_loop :: "topology \<Rightarrow> trace_state \<Rightarrow> (error + cable_path option) option" where
  "trace_loop db s =
     (if st_terminations s = [] then Some (Inr (Some (new_cable_path s)))
      else
        (case loop_body db s of
           Inl e \<Rightarrow> Some (Inl e)
         | Inr ReturnNone \<Rightarrow> Some (Inr None)
         | Inr (Break s') \<Rightarrow> Some (Inr (Some (new_cable_path s')))
         | Inr (Continue s') \<Rightarrow> trace_loop db s'))"

definition initial_state :: "bool \<Rightarrow> cabled_object list \<Rightarrow> trace_state" where
  "initial_state shared ts =
     \<lparr>st_terminations = ts, st_path = [], st_position_stack = [], st_is_complete = False,
      st_is_active = True, st_is_split = False, st_shared = shared\<rparr>"

text \<open>
  \<open>from_origin\<close>. \<open>shared\<close> is the fact about the caller's objects described at
  \<open>trace_state\<close>: whether \<open>terminations[0]\<close> is the object its link holds as
  \<open>interface_a\<close>.
\<close>

definition from_origin :: "topology \<Rightarrow> bool \<Rightarrow> cabled_object list \<Rightarrow> (error + cable_path option) option" where
  "from_origin db shared ts = trace_loop db (initial_state shared ts)"

section \<open>Accessors, \<open>save\<close> and \<open>retrace\<close>\<close>

text \<open>A list comprehension over calls that may raise: the first exception wins.\<close>

fun collect :: "(error + 'a) list \<Rightarrow> error + 'a list" where
  "collect [] = Inr []"
| "collect (Inl e # xs) = Inl e"
| "collect (Inr x # xs) = (case collect xs of Inl e \<Rightarrow> Inl e | Inr ys \<Rightarrow> Inr (x # ys))"

text \<open>
  Modelled from the spec: \<open>path_node_to_object\<close> of \<open>dcim/utils.py\<close>, which is outside
  the sources verified here. The spec's \<open>decode\<close> is the inverse of \<open>encode\<close>, and the repository
  looks an entity up by its type and identity; a node with no row raises \<open>DoesNotExist\<close>.
\<close>

definition path_node_to_object :: "topology \<Rightarrow> node \<Rightarrow> error + path_object" where
  "path_node_to_object db n =
     (case n of (ct, i) \<Rightarrow>
        (case ct of
           EndpointCT k \<Rightarrow>
             if (k, i) \<in> set (path_endpoints db) then Inr (TerminationObject (PathEndpoint k i))
             else Inl DoesNotExist
         | FrontPortCT \<Rightarrow>
             (case filter (\<lambda>fp. fp_pk fp = i) (front_ports db) of
                [] \<Rightarrow> Inl DoesNotExist
              | fp # _ \<Rightarrow> Inr (TerminationObject (FrontPort fp)))
         | RearPortCT \<Rightarrow>
             (case filter (\<lambda>rp. rp_pk rp = i) (rear_ports db) of
                [] \<Rightarrow> Inl DoesNotExist
              | rp # _ \<Rightarrow> Inr (TerminationObject (RearPort rp)))
         | CircuitTerminationCT \<Rightarrow>
             (case filter (\<lambda>c. ct_pk c = i) (circuit_terminations db) of
                [] \<Rightarrow> Inl DoesNotExist
              | c # _ \<Rightarrow> Inr (TerminationObject (CircuitTermination c)))
         | CableCT \<Rightarrow>
             (case filter (\<lambda>c. cable_pk c = i) (cables db) of
                [] \<Rightarrow> Inl DoesNotExist
              | c # _ \<Rightarrow> Inr (LinkObject (Cable c)))
         | WirelessLinkCT \<Rightarrow>
             (case filter (\<lambda>w. wl_pk w = i) (wireless_links db) of
                [] \<Rightarrow> Inl DoesNotExist
              | w # _ \<Rightarrow> Inr (LinkObject (WirelessLink w)))
         | ProviderNetworkCT \<Rightarrow>
             if i \<in> set (provider_networks db) then Inr (ProviderNetworkObject i)
             else Inl DoesNotExist
         | SiteCT \<Rightarrow>
             if i \<in> set (sites db) then Inr (SiteObject i) else Inl DoesNotExist))"

text \<open>The node of any path object: its class and its \<open>id\<close>.\<close>

fun object_node :: "path_object \<Rightarrow> node" where
  "object_node (TerminationObject t) = object_to_path_node t"
| "object_node (LinkObject l) = link_to_path_node l"
| "object_node (ProviderNetworkObject i) = (ProviderNetworkCT, i)"
| "object_node (SiteObject i) = (SiteCT, i)"

text \<open>
  Modelled from the spec: \<open>flatten_path\<close> of \<open>dcim/utils.py\<close>, which is outside the
  sources verified here. The spec's \<open>flatten\<close> concatenates all hop-groups' nodes into one ordered
  sequence.
\<close>

definition flatten_path :: "node list list \<Rightarrow> node list" where
  "flatten_path p = concat p"

text \<open>The property \<open>origins\<close>.\<close>

definition origins :: "topology \<Rightarrow> cable_path \<Rightarrow> error + path_object list" where
  "origins db cp =
     (case path_objects_cache cp of
        Some po \<Rightarrow> (case po of [] \<Rightarrow> Inl IndexError | g # _ \<Rightarrow> Inr g)
      | None \<Rightarrow>
          (case path cp of
             [] \<Rightarrow> Inl IndexError
           | g # _ \<Rightarrow> collect (map (path_node_to_object db) g)))"

text \<open>The property \<open>destinations\<close>.\<close>

definition destinations :: "topology \<Rightarrow> cable_path \<Rightarrow> error + path_object list" where
  "destinations db cp =
     (if \<not> is_complete cp then Inr []
      else
        (case path_objects_cache cp of
           Some po \<Rightarrow> (if po = [] then Inl IndexError else Inr (last po))
         | None \<Rightarrow>
             (if path cp = [] then Inl IndexError
              else collect (map (path_node_to_object db) (last (path cp))))))"

text \<open>
  The property \<open>destination_type\<close>: \<open>None\<close>, or the content type of the first node of the
  last hop-group.
\<close>

definition destination_type :: "cable_path \<Rightarrow> error + content_type option" where
  "destination_type cp =
     (if \<not> is_complete cp then Inr None
      else if path cp = [] then Inl IndexError
      else
        (case last (path cp) of
           [] \<Rightarrow> Inl IndexError
         | n # _ \<Rightarrow> Inr (Some (fst n))))"

text \<open>\<open>get_cable_ids\<close>: the ids of the Cable nodes of \<open>_nodes\<close>, in order.\<close>

definition get_cable_ids :: "cable_path \<Rightarrow> error + nat list" where
  "get_cable_ids cp =
     (case nodes cp of
        None \<Rightarrow> Inl TypeError
      | Some ns \<Rightarrow> Inr (map snd (filter (\<lambda>n. fst n = CableCT) ns)))"

text \<open>
  \<open>get_total_length\<close>. The QuerySet \<open>cables\<close> holds the rows of \<open>Cable\<close> whose id is among
  \<open>cable_ids\<close> and whose \<open>_abs_length\<close> is not null; \<open>Sum\<close> over no rows is \<open>None\<close>.
\<close>

definition get_total_length :: "topology \<Rightarrow> cable_path \<Rightarrow> error + (rat option \<times> bool)" where
  "get_total_length db cp =
     (case get_cable_ids cp of
        Inl e \<Rightarrow> Inl e
      | Inr cable_ids \<Rightarrow>
          (let cs = filter (\<lambda>c. cable_pk c \<in> set cable_ids \<and> abs_length c \<noteq> None) (cables db);
               total_length = (if cs = [] then None else Some (sum_list (map (\<lambda>c. the (abs_length c)) cs)));
               is_definitive = (length cs = length cable_ids)
           in Inr (total_length, is_definitive)))"

text \<open>
  The stored side of \<open>CablePath\<close>: its table, the column \<open>_path\<close> of the objects that can
  originate a path (their back-reference), and the next primary key the table hands out.
\<close>

record store =
  cable_paths :: "nat \<Rightarrow> cable_path option"
  path_refs :: "node \<Rightarrow> nat option"
  next_pk :: nat

definition row_exists :: "topology \<Rightarrow> node \<Rightarrow> bool" where
  "row_exists db n = (case path_node_to_object db n of Inl e \<Rightarrow> False | Inr ob \<Rightarrow> True)"

text \<open>
  \<open>save\<close>: fill \<open>_nodes\<close>, write the row (\<open>super().save()\<close> gives a new instance its primary
  key), then set \<open>_path\<close> on the rows of the origins' model whose primary key is an
  origin's. Which models declare \<open>_path\<close> is decided outside \<open>cables.py\<close>; the model keeps
  a back-reference for every node.
\<close>

definition save :: "topology \<Rightarrow> store \<Rightarrow> cable_path \<Rightarrow> error + (cable_path \<times> store)" where
  "save db st cp =
     (let i = (case pk cp of Some j \<Rightarrow> j | None \<Rightarrow> next_pk st);
          cp' = cp\<lparr>nodes := Some (flatten_path (path cp)), pk := Some i\<rparr>;
          st' = st\<lparr>cable_paths := (cable_paths st)(i := Some cp'),
                   next_pk := (if pk cp = None then Suc (next_pk st) else next_pk st)\<rparr>
      in case origins db cp' of
           Inl e \<Rightarrow> Inl e
         | Inr os \<Rightarrow>
             (case os of
                [] \<Rightarrow> Inl IndexError
              | o0 # _ \<Rightarrow>
                  (let origin_model = fst (object_node o0);
                       origin_ids = map (\<lambda>ob. snd (object_node ob)) os
                   in Inr (cp', st'\<lparr>path_refs :=
                             (\<lambda>n. if fst n = origin_model \<and> snd n \<in> set origin_ids \<and> row_exists db n
                                  then Some i else path_refs st' n)\<rparr>))))"

text \<open>
  Modelled from the spec: what deleting a path does to the column \<open>_path\<close> of its
  origins. The column is declared in \<open>dcim/models/device_components.py\<close>, which is
  outside the sources verified here. By the spec the back-reference is updated whenever the path
  is deleted: every back-reference to the deleted path is cleared.
\<close>

definition clear_back_references :: "store \<Rightarrow> nat \<Rightarrow> store" where
  "clear_back_references st i =
     st\<lparr>path_refs := (\<lambda>n. if path_refs st n = Some i then None else path_refs st n)\<rparr>"

text \<open>
  \<open>self.delete()\<close>: the row goes and the instance loses its primary key; an instance
  without a primary key cannot be deleted.
\<close>

definition delete :: "store \<Rightarrow> cable_path \<Rightarrow> error + (cable_path \<times> store)" where
  "delete st cp =
     (case pk cp of
        None \<Rightarrow> Inl AssertionError
      | Some i \<Rightarrow>
          Inr (cp\<lparr>pk := None\<rparr>,
               clear_back_references (st\<lparr>cable_paths := (cable_paths st)(i := None)\<rparr>) i))"

text \<open>
  \<open>from_origin\<close> called on path objects, as \<open>retrace\<close> does with \<open>self.origins\<close>. Objects
  of different classes fail the first \<open>assert\<close>; an object that is not a termination has
  neither \<open>parent_object\<close> nor \<open>link\<close>. The objects \<open>origins\<close> returns are built from the
  path's nodes (or were prefetched into the cache), so none is the object a link holds.
\<close>

fun get_termination :: "path_object \<Rightarrow> cabled_object option" where
  "get_termination (TerminationObject t) = Some t"
| "get_termination _ = None"

definition from_origin_objects :: "topology \<Rightarrow> path_object list \<Rightarrow> (error + cable_path option) option" where
  "from_origin_objects db os =
     (case os of
        [] \<Rightarrow> from_origin db False []
      | o0 # rest \<Rightarrow>
          if \<not> list_all (\<lambda>ob. fst (object_node ob) = fst (object_node o0)) rest then Some (Inl AssertionError)
          else
            (case those_attrs (map get_termination os) of
               None \<Rightarrow> Some (Inl AttributeError)
             | Some ts \<Rightarrow> from_origin db False ts))"

text \<open>\<open>retrace\<close>. A model instance is truthy, so \<open>if _new\<close> tests for \<open>None\<close>.\<close>

definition retrace :: "topology \<Rightarrow> store \<Rightarrow> cable_path \<Rightarrow> (error + (cable_path \<times> store)) option" where
  "retrace db st cp =
     (case origins db cp of
        Inl e \<Rightarrow> Some (Inl e)
      | Inr os \<Rightarrow>
          (case from_origin_objects db os of
             None \<Rightarrow> None
           | Some (Inl e) \<Rightarrow> Some (Inl e)
           | Some (Inr (Some new)) \<Rightarrow>
               Some (save db st (cp\<lparr>path := path new, is_complete := is_complete new,
                                     is_active := is_active new, is_split := is_split new\<rparr>))
           | Some (Inr None) \<Rightarrow> Some (delete st cp)))"

section \<open>Shapes of a path\<close>

definition is_link_node :: "node \<Rightarrow> bool" where
  "is_link_node n = (fst n = CableCT \<or> fst n = WirelessLinkCT)"

fun is_termination_type :: "content_type \<Rightarrow> bool" where
  "is_termination_type (EndpointCT k) = True"
| "is_termination_type FrontPortCT = True"
| "is_termination_type RearPortCT = True"
| "is_termination_type CircuitTerminationCT = True"
| "is_termination_type _ = False"

definition termination_group :: "node list \<Rightarrow> bool" where
  "termination_group g = (g \<noteq> [] \<and> list_all (\<lambda>n. is_termination_type (fst n)) g)"

definition link_group :: "node list \<Rightarrow> bool" where
  "link_group g = (length g = 1 \<and> list_all is_link_node g)"

text \<open>
  The invariant in the spec's words: hop-groups strictly alternate between termination
  set and link set, starting with a termination set, and a link hop-group holds exactly
  one link. \<open>alternates True\<close> expects a termination set next, \<open>alternates False\<close> a link
  set.
\<close>

fun alternates :: "bool \<Rightarrow> node list list \<Rightarrow> bool" where
  "alternates expect_termination [] = True"
| "alternates expect_termination (g # gs) =
     ((if expect_termination then termination_group g else link_group g) \<and>
      alternates (\<not> expect_termination) gs)"

text \<open>
  What the loop appends per hop: a near-end termination group, one link, a far-end
  termination group.
\<close>

fun segments :: "node list list \<Rightarrow> bool" where
  "segments [] = True"
| "segments (g # l # h # gs) = (termination_group g \<and> link_group l \<and> termination_group h \<and> segments gs)"
| "segments _ = False"

text \<open>
  The shape of a finished path: segments, then nothing, or one termination group (the
  hop that found no link), or the paired circuit termination followed by its provider
  network or site.
\<close>

fun path_shape :: "node list list \<Rightarrow> bool" where
  "path_shape [] = True"
| "path_shape [g] = termination_group g"
| "path_shape [g, h] =
     (map fst g = [CircuitTerminationCT] \<and> (map fst h = [ProviderNetworkCT] \<or> map fst h = [SiteCT]))"
| "path_shape (g # l # h # gs) =
     (termination_group g \<and> link_group l \<and> termination_group h \<and> path_shape gs)"

text \<open>One hop of the loop: the body runs and asks for another iteration.\<close>

definition hop :: "topology \<Rightarrow> (trace_state \<times> trace_state) set" where
  "hop db = {(s, s'). st_terminations s \<noteq> [] \<and> loop_body db s = Inr (Continue s')}"

section \<open>Example topologies\<close>

definition if_a :: cabled_object where "if_a = PathEndpoint Interface 1"

definition if_b :: cabled_object where "if_b = PathEndpoint Interface 2"

definition connected_cable :: "nat \<Rightarrow> rat \<Rightarrow> cable_row" where
  "connected_cable i len = \<lparr>cable_pk = i, cable_status = ''connected'', abs_length = Some len\<rparr>"

definition cterm :: "nat \<Rightarrow> cable_end_choice \<Rightarrow> cabled_object \<Rightarrow> cable_termination" where
  "cterm c e t = \<lparr>ct_cable = c, cable_end = e, ct_termination = t\<rparr>"

text \<open>
  Interface A, cable 1 (connected), front port 1 at position 1 of rear port 1 (one
  position); nothing is attached to the rear port.
\<close>

definition patch_fp :: front_port where
  "patch_fp = \<lparr>fp_pk = 1, rear_port_id = 1, rear_port_position = 1\<rparr>"

definition patch_rp :: rear_port where
  "patch_rp = \<lparr>rp_pk = 1, positions = 1\<rparr>"

definition patch_db :: topology where
  "patch_db =
     \<lparr>link_of = map_of [(if_a, Cable (connected_cable 1 5)), (FrontPort patch_fp, Cable (connected_cable 1 5))],
      parent_object = (\<lambda>t. Device 1),
      cables = [connected_cable 1 5],
      wireless_links = [],
      cable_terminations = [cterm 1 EndA if_a, cterm 1 EndB (FrontPort patch_fp)],
      path_endpoints = [(Interface, 1)],
      front_ports = [patch_fp],
      rear_ports = [patch_rp],
      circuit_terminations = [],
      provider_networks = [],
      sites = []\<rparr>"

definition patch_path :: cable_path where
  "patch_path =
     \<lparr>pk = None,
      path = [[(EndpointCT Interface, 1)], [(CableCT, 1)], [(FrontPortCT, 1)], [(RearPortCT, 1)]],
      is_active = True, is_complete = False, is_split = False,
      nodes = None, path_objects_cache = None\<rparr>"

text \<open>
  Interface A, cable 1 (connected), the A-side termination of circuit 1; the Z-side
  termination of circuit 1 is attached to provider network 7.
\<close>

definition circuit_ct_a :: circuit_termination where
  "circuit_ct_a = \<lparr>ct_pk = 1, circuit = 1, term_side = SideA, provider_network = None,
                    site = Some 1, cable = Some 1\<rparr>"

definition circuit_ct_z :: circuit_termination where
  "circuit_ct_z = \<lparr>ct_pk = 2, circuit = 1, term_side = SideZ, provider_network = Some 7,
                    site = None, cable = None\<rparr>"

definition circuit_db :: topology where
  "circuit_db =
     \<lparr>link_of = map_of [(if_a, Cable (connected_cable 1 5)),
                        (CircuitTermination circuit_ct_a, Cable (connected_cable 1 5))],
      parent_object = (\<lambda>t. case t of CircuitTermination c \<Rightarrow> Circuit (circuit c) | _ \<Rightarrow> Device 1),
      cables = [connected_cable 1 5],
      wireless_links = [],
      cable_terminations = [cterm 1 EndA if_a, cterm 1 EndB (CircuitTermination circuit_ct_a)],
      path_endpoints = [(Interface, 1)],
      front_ports = [],
      rear_ports = [],
      circuit_terminations = [circuit_ct_a, circuit_ct_z],
      provider_networks = [7],
      sites = [1]\<rparr>"

definition circuit_path :: cable_path where
  "circuit_path =
     \<lparr>pk = None,
      path = [[(EndpointCT Interface, 1)], [(CableCT, 1)], [(CircuitTerminationCT, 1)],
              [(CircuitTerminationCT, 2)], [(ProviderNetworkCT, 7)]],
      is_active = True, is_complete = False, is_split = False,
      nodes = None, path_objects_cache = None\<rparr>"







text \<open>
  A trunk crossed twice. Interface A, cable 1, front port 1 (position 1 of rear port 1);
  rear port 1, cable 2, rear port 2 (two positions each); front port 2 (position 1 of
  rear port 2), cable 3, front port 3 (position 2 of rear port 2); back over cable 2;
  front port 4 (position 2 of rear port 1), cable 4, interface B. Every cable is
  connected and has a length.
\<close>

definition loop_fp1 :: front_port where
  "loop_fp1 = \<lparr>fp_pk = 1, rear_port_id = 1, rear_port_position = 1\<rparr>"

definition loop_fp2 :: front_port where
  "loop_fp2 = \<lparr>fp_pk = 2, rear_port_id = 2, rear_port_position = 1\<rparr>"

definition loop_fp3 :: front_port where
  "loop_fp3 = \<lparr>fp_pk = 3, rear_port_id = 2, rear_port_position = 2\<rparr>"

definition loop_fp4 :: front_port where
  "loop_fp4 = \<lparr>fp_pk = 4, rear_port_id = 1, rear_port_position = 2\<rparr>"

definition loop_rp1 :: rear_port where
  "loop_rp1 = \<lparr>rp_pk = 1, positions = 2\<rparr>"

definition loop_rp2 :: rear_port where
  "loop_rp2 = \<lparr>rp_pk = 2, positions = 2\<rparr>"

definition loopback_db :: topology where
  "loopback_db =
     \<lparr>link_of = map_of [(if_a, Cable (connected_cable 1 5)),
                        (FrontPort loop_fp1, Cable (connected_cable 1 5)),
                        (RearPort loop_rp1, Cable (connected_cable 2 30)),
                        (RearPort loop_rp2, Cable (connected_cable 2 30)),
                        (FrontPort loop_fp2, Cable (connected_cable 3 1)),
                        (FrontPort loop_fp3, Cable (connected_cable 3 1)),
                        (FrontPort loop_fp4, Cable (connected_cable 4 5)),
                        (if_b, Cable (connected_cable 4 5))],
      parent_object = (\<lambda>t. case t of PathEndpoint k i \<Rightarrow> Device (10 + i)
                                  | FrontPort fp \<Rightarrow> Device (rear_port_id fp)
                                  | RearPort rp \<Rightarrow> Device (rp_pk rp)
                                  | CircuitTermination c \<Rightarrow> Circuit (circuit c)),
      cables = [connected_cable 1 5, connected_cable 2 30, connected_cable 3 1, connected_cable 4 5],
      wireless_links = [],
      cable_terminations = [cterm 1 EndA if_a, cterm 1 EndB (FrontPort loop_fp1),
                            cterm 2 EndA (RearPort loop_rp1), cterm 2 EndB (RearPort loop_rp2),
                            cterm 3 EndA (FrontPort loop_fp2), cterm 3 EndB (FrontPort loop_fp3),
                            cterm 4 EndA (FrontPort loop_fp4), cterm 4 EndB if_b],
      path_endpoints = [(Interface, 1), (Interface, 2)],
      front_ports = [loop_fp1, loop_fp2, loop_fp3, loop_fp4],
      rear_ports = [loop_rp1, loop_rp2],
      circuit_terminations = [],
      provider_networks = [],
      sites = []\<rparr>"

text \<open>A Z-side termination of circuit 1 at site 2, with no cable.\<close>

definition circuit_ct_site :: circuit_termination where
  "circuit_ct_site = \<lparr>ct_pk = 2, circuit = 1, term_side = SideZ, provider_network = None,
                       site = Some 2, cable = None\<rparr>"

text \<open>The state of the trace on \<open>patch_db\<close> from interface A after its first hop.\<close>

definition patch_hop_state :: trace_state where
  "patch_hop_state =
     \<lparr>st_terminations = [RearPort patch_rp],
      st_path = [[(EndpointCT Interface, 1)], [(CableCT, 1)], [(FrontPortCT, 1)]],
      st_position_stack = [], st_is_complete = False, st_is_active = True, st_is_split = False,
      st_shared = False\<rparr>"

text \<open>
  Stored paths over \<open>patch_db\<close>. Path 1 starts at interface A and holds stale content;
  path 2 starts at rear port 1, which has no cable. Both origins refer back to their
  path.
\<close>

definition stale_path :: cable_path where
  "stale_path =
     \<lparr>pk = Some 1,
      path = [[(EndpointCT Interface, 1)], [(CableCT, 9)], [(EndpointCT Interface, 9)]],
      is_active = True, is_complete = True, is_split = False,
      nodes = Some [(EndpointCT Interface, 1), (CableCT, 9), (EndpointCT Interface, 9)],
      path_objects_cache = None\<rparr>"

definition unlinked_path :: cable_path where
  "unlinked_path =
     \<lparr>pk = Some 2,
      path = [[(RearPortCT, 1)], [(CableCT, 8)], [(EndpointCT Interface, 8)]],
      is_active = True, is_complete = True, is_split = False,
      nodes = Some [(RearPortCT, 1), (CableCT, 8), (EndpointCT Interface, 8)],
      path_objects_cache = None\<rparr>"

definition stale_store :: store where
  "stale_store =
     \<lparr>cable_paths = (\<lambda>i. if i = 1 then Some stale_path else if i = 2 then Some unlinked_path else None),
      path_refs = (\<lambda>n. if n = (EndpointCT Interface, 1) then Some 1
                        else if n = (RearPortCT, 1) then Some 2 else None),
      next_pk = 3\<rparr>"

definition retraced_path :: cable_path where
  "retraced_path =
     stale_path\<lparr>path := path patch_path, is_complete := is_complete patch_path,
                is_active := is_active patch_path, is_split := is_split patch_path,
                nodes := Some (flatten_path (path patch_path))\<rparr>"

definition empty_store :: store where
  "empty_store = \<lparr>cable_paths = (\<lambda>i. None), path_refs = (\<lambda>n. None), next_pk = 1\<rparr>"

text \<open>The path traced over \<open>loopback_db\<close> from interface A.\<close>

definition loopback_path :: cable_path where
  "loopback_path =
     \<lparr>pk = None,
      path = [[(EndpointCT Interface, 1)], [(CableCT, 1)], [(FrontPortCT, 1)],
              [(RearPortCT, 1)], [(CableCT, 2)], [(RearPortCT, 2)],
              [(FrontPortCT, 2)], [(CableCT, 3)], [(FrontPortCT, 3)],
              [(RearPortCT, 2)], [(CableCT, 2)], [(RearPortCT, 1)],
              [(FrontPortCT, 4)], [(CableCT, 4)], [(EndpointCT Interface, 2)]],
      is_active = True, is_complete = True, is_split = False,
      nodes = None, path_objects_cache = None\<rparr>"

declare trace_loop.simps [code]

section \<open>The hop loop\<close>

lemma termination_group_nodes: "ts \<noteq> [] \<Longrightarrow> termination_group (map object_to_path_node ts)"
proof -
  have "is_termination_type (type_of t)" for t by (cases t) simp_all
  then show "ts \<noteq> [] \<Longrightarrow> termination_group (map object_to_path_node ts)"
    by (simp add: termination_group_def object_to_path_node_def list_all_iff)
qed

lemma termination_group_nodes_Cons [simp]:
  "termination_group (object_to_path_node t # map object_to_path_node ts)"
  using termination_group_nodes [of "t # ts"] by simp

lemma link_group_node: "link_group [link_to_path_node l]"
  by (cases l) (simp_all add: link_group_def is_link_node_def)

lemma segments_append: "segments p \<Longrightarrow> segments q \<Longrightarrow> segments (p @ q)"
  by (induction p rule: segments.induct) simp_all

lemma path_shape_append: "segments p \<Longrightarrow> path_shape (p @ q) = path_shape q"
  by (induction p rule: segments.induct) simp_all

lemma next_hop_Continue:
  assumes "next_hop db s r = Inr (Continue s')"
  shows "r \<noteq> [] \<and> st_path s' = st_path s \<and> st_is_complete s' = st_is_complete s \<and>
         st_is_split s' = st_is_split s \<and> st_is_active s' = st_is_active s"
  using assms
  by (auto simp: next_hop_def Let_def split: list.splits cabled_object.splits option.splits if_splits)

lemma next_hop_Break:
  assumes "next_hop db s r = Inr (Break s')"
  shows "r \<noteq> [] \<and> st_is_active s' = st_is_active s \<and>
         (st_path s' = st_path s \<or>
          (\<exists>i j. st_path s' = st_path s @ [[(CircuitTerminationCT, i)], [(ProviderNetworkCT, j)]]) \<or>
          (\<exists>i j. st_path s' = st_path s @ [[(CircuitTerminationCT, i)], [(SiteCT, j)]]))"
  using assms
  by (auto simp: next_hop_def Let_def object_to_path_node_def split: list.splits cabled_object.splits option.splits if_splits)

lemma next_hop_not_ReturnNone: "next_hop db s r \<noteq> Inr ReturnNone"
  by (auto simp: next_hop_def Let_def split: list.splits cabled_object.splits option.splits if_splits)

lemma loop_body_Continue:
  assumes "loop_body db s = Inr (Continue s')"
  shows "\<exists>t0 rest l r. st_terminations s = t0 # rest \<and> link_of db t0 = Some l \<and> r \<noteq> [] \<and>
           far_end db (st_shared s) t0 (t0 # rest) l = Inr r \<and>
           st_path s' = st_path s @ [map object_to_path_node (t0 # rest), [link_to_path_node l],
                                     map object_to_path_node r] \<and>
           st_is_complete s' = st_is_complete s \<and> st_is_split s' = st_is_split s \<and>
           st_is_active s' = (st_is_active s \<and> link_status l = STATUS_CONNECTED)"
proof (cases "st_terminations s")
  case Nil
  with assms show ?thesis by (simp add: loop_body_def)
next
  case (Cons t0 rest)
  with assms obtain l where l: "link_of db t0 = Some l"
    by (auto simp: loop_body_def Let_def split: if_splits option.splits)
  with assms Cons obtain r where r: "far_end db (st_shared s) t0 (t0 # rest) l = Inr r"
    by (auto simp: loop_body_def Let_def split: if_splits sum.splits)
  let ?s1 = "s\<lparr>st_path := st_path s @ [map object_to_path_node (t0 # rest)] @ [[link_to_path_node l]] @
                           [map object_to_path_node r],
                st_is_active := (if link_status l \<noteq> STATUS_CONNECTED then False else st_is_active s),
                st_shared := False\<rparr>"
  from assms Cons l r have nh: "next_hop db ?s1 r = Inr (Continue s')"
    by (auto simp: loop_body_def Let_def split: if_splits)
  from next_hop_Continue [OF nh] Cons l r show ?thesis by auto
qed

lemma loop_body_Break:
  assumes "loop_body db s = Inr (Break s')"
  shows "\<exists>t0 rest. st_terminations s = t0 # rest \<and>
           ((link_of db t0 = None \<and> st_path s \<noteq> [] \<and> s' = s\<lparr>st_path := st_path s @ [map object_to_path_node (t0 # rest)]\<rparr>) \<or>
            (\<exists>l r tl. link_of db t0 = Some l \<and> r \<noteq> [] \<and>
               st_path s' = st_path s @ [map object_to_path_node (t0 # rest), [link_to_path_node l],
                                         map object_to_path_node r] @ tl \<and>
               (tl = [] \<or> (\<exists>i j. tl = [[(CircuitTerminationCT, i)], [(ProviderNetworkCT, j)]]) \<or>
                (\<exists>i j. tl = [[(CircuitTerminationCT, i)], [(SiteCT, j)]])) \<and>
               st_is_active s' = (st_is_active s \<and> link_status l = STATUS_CONNECTED)))"
proof (cases "st_terminations s")
  case Nil
  with assms show ?thesis by (simp add: loop_body_def)
next
  case (Cons t0 rest)
  show ?thesis
  proof (cases "link_of db t0")
    case None
    with assms Cons show ?thesis
      by (auto simp: loop_body_def Let_def split: if_splits)
  next
    case (Some l)
    with assms Cons obtain r where r: "far_end db (st_shared s) t0 (t0 # rest) l = Inr r"
      by (auto simp: loop_body_def Let_def split: if_splits sum.splits)
    let ?s1 = "s\<lparr>st_path := st_path s @ [map object_to_path_node (t0 # rest)] @ [[link_to_path_node l]] @
                           [map object_to_path_node r],
                st_is_active := (if link_status l \<noteq> STATUS_CONNECTED then False else st_is_active s),
                st_shared := False\<rparr>"
    from assms Cons Some r have nh: "next_hop db ?s1 r = Inr (Break s')"
      by (auto simp: loop_body_def Let_def split: if_splits)
    from next_hop_Break [OF nh] Cons Some r show ?thesis by auto
  qed
qed

lemma loop_body_Continue_segments:
  assumes "loop_body db s = Inr (Continue s')" and "segments (st_path s)"
  shows "segments (st_path s')"
proof -
  from loop_body_Continue [OF assms(1)] obtain t0 rest l r where
    r: "r \<noteq> []" and
    p: "st_path s' = st_path s @ [map object_to_path_node (t0 # rest), [link_to_path_node l],
                                     map object_to_path_node r]"
    by blast
  have "segments [map object_to_path_node (t0 # rest), [link_to_path_node l], map object_to_path_node r]"
    using r by (simp add: termination_group_nodes link_group_node)
  with assms(2) p show ?thesis by (simp add: segments_append)
qed

lemma loop_body_Break_shape:
  assumes "loop_body db s = Inr (Break s')" and "segments (st_path s)"
  shows "path_shape (st_path s')"
proof -
  from loop_body_Break [OF assms(1)] obtain t0 rest where
    c: "(link_of db t0 = None \<and> st_path s \<noteq> [] \<and> s' = s\<lparr>st_path := st_path s @ [map object_to_path_node (t0 # rest)]\<rparr>) \<or>
            (\<exists>l r tl. link_of db t0 = Some l \<and> r \<noteq> [] \<and>
               st_path s' = st_path s @ [map object_to_path_node (t0 # rest), [link_to_path_node l],
                                         map object_to_path_node r] @ tl \<and>
               (tl = [] \<or> (\<exists>i j. tl = [[(CircuitTerminationCT, i)], [(ProviderNetworkCT, j)]]) \<or>
                (\<exists>i j. tl = [[(CircuitTerminationCT, i)], [(SiteCT, j)]])) \<and>
               st_is_active s' = (st_is_active s \<and> link_status l = STATUS_CONNECTED))"
    by blast
  then show ?thesis
  proof
    assume "link_of db t0 = None \<and> st_path s \<noteq> [] \<and> s' = s\<lparr>st_path := st_path s @ [map object_to_path_node (t0 # rest)]\<rparr>"
    then have "st_path s' = st_path s @ [map object_to_path_node (t0 # rest)]" by simp
    with assms(2) show ?thesis
      by (simp add: path_shape_append termination_group_nodes)
  next
    assume "\<exists>l r tl. link_of db t0 = Some l \<and> r \<noteq> [] \<and>
               st_path s' = st_path s @ [map object_to_path_node (t0 # rest), [link_to_path_node l],
                                         map object_to_path_node r] @ tl \<and>
               (tl = [] \<or> (\<exists>i j. tl = [[(CircuitTerminationCT, i)], [(ProviderNetworkCT, j)]]) \<or>
                (\<exists>i j. tl = [[(CircuitTerminationCT, i)], [(SiteCT, j)]])) \<and>
               st_is_active s' = (st_is_active s \<and> link_status l = STATUS_CONNECTED)"
    then obtain l r tl where r: "r \<noteq> []" and
      p: "st_path s' = st_path s @ [map object_to_path_node (t0 # rest), [link_to_path_node l],
                                         map object_to_path_node r] @ tl" and
      tl: "tl = [] \<or> (\<exists>i j. tl = [[(CircuitTerminationCT, i)], [(ProviderNetworkCT, j)]]) \<or>
                (\<exists>i j. tl = [[(CircuitTerminationCT, i)], [(SiteCT, j)]])"
      by blast
    from tl have "path_shape tl" by auto
    with r have "path_shape ([map object_to_path_node (t0 # rest), [link_to_path_node l],
                                         map object_to_path_node r] @ tl)"
      by (simp add: termination_group_nodes link_group_node)
    with assms(2) p show ?thesis by (simp add: path_shape_append)
  qed
qed

lemma trace_loop_rule:
  assumes run: "trace_loop db s = Some r"
    and init: "I s"
    and cont: "\<And>s s'. I s \<Longrightarrow> st_terminations s \<noteq> [] \<Longrightarrow> loop_body db s = Inr (Continue s') \<Longrightarrow> I s'"
    and fin: "\<And>s. I s \<Longrightarrow> st_terminations s = [] \<Longrightarrow> Q (Inr (Some (new_cable_path s)))"
    and brk: "\<And>s s'. I s \<Longrightarrow> st_terminations s \<noteq> [] \<Longrightarrow> loop_body db s = Inr (Break s') \<Longrightarrow>
                Q (Inr (Some (new_cable_path s')))"
    and none: "\<And>s. I s \<Longrightarrow> st_terminations s \<noteq> [] \<Longrightarrow> loop_body db s = Inr ReturnNone \<Longrightarrow> Q (Inr None)"
    and err: "\<And>s e. I s \<Longrightarrow> st_terminations s \<noteq> [] \<Longrightarrow> loop_body db s = Inl e \<Longrightarrow> Q (Inl e)"
  shows "Q r"
proof -
  have "db = db \<longrightarrow> I s \<longrightarrow> Q r"
  proof (rule trace_loop.raw_induct [where P = "\<lambda>d s r. d = db \<longrightarrow> I s \<longrightarrow> Q r" and db = db and s = s and y = r])
    show "trace_loop db s = Some r" by (fact run)
  next
    fix f d s1 r1
    assume IH: "\<And>d s r. f d s = Some r \<Longrightarrow> d = db \<longrightarrow> I s \<longrightarrow> Q r"
      and step: "(if st_terminations s1 = [] then Some (Inr (Some (new_cable_path s1)))
                  else case loop_body d s1 of
                         Inl e \<Rightarrow> Some (Inl e)
                       | Inr (Continue s') \<Rightarrow> f d s'
                       | Inr (Break s') \<Rightarrow> Some (Inr (Some (new_cable_path s')))
                       | Inr ReturnNone \<Rightarrow> Some (Inr None)) = Some r1"
    show "d = db \<longrightarrow> I s1 \<longrightarrow> Q r1"
    proof (intro impI)
      assume d: "d = db" and inv: "I s1"
      show "Q r1"
      proof (cases "st_terminations s1 = []")
        case True
        with step have "r1 = Inr (Some (new_cable_path s1))" by simp
        with fin [OF inv True] show ?thesis by simp
      next
        case False
        show ?thesis
        proof (cases "loop_body db s1")
          case (Inl e)
          with step False d have "r1 = Inl e" by simp
          with err [OF inv False Inl] show ?thesis by simp
        next
          case (Inr out)
          show ?thesis
          proof (cases out)
            case (Continue s')
            with Inr False step d have "f db s' = Some r1" by simp
            moreover have "I s'" using cont [OF inv False] Inr Continue by simp
            ultimately show ?thesis using IH by blast
          next
            case (Break s')
            with Inr False step d have "r1 = Inr (Some (new_cable_path s'))" by simp
            with brk [OF inv False] Inr Break show ?thesis by simp
          next
            case ReturnNone
            with Inr False step d have "r1 = Inr None" by simp
            with none [OF inv False] Inr ReturnNone show ?thesis by simp
          qed
        qed
      qed
    qed
  qed
  with init show ?thesis by blast
qed

lemma path_shape_segments: "segments p \<Longrightarrow> path_shape p"
  using path_shape_append [of p "[]"] by simp

lemma loop_body_Continue_origin:
  assumes "loop_body db s = Inr (Continue s')"
    and "if st_path s = [] then st_terminations s = ts else hd (st_path s) = map object_to_path_node ts"
  shows "st_path s' \<noteq> [] \<and> hd (st_path s') = map object_to_path_node ts"
  using loop_body_Continue [OF assms(1)] assms(2) by (auto split: if_splits)

lemma loop_body_Break_origin:
  assumes "loop_body db s = Inr (Break s')"
    and "if st_path s = [] then st_terminations s = ts else hd (st_path s) = map object_to_path_node ts"
  shows "st_path s' \<noteq> [] \<and> hd (st_path s') = map object_to_path_node ts"
  using loop_body_Break [OF assms(1)] assms(2) by (auto split: if_splits)

lemmas eval_defs = loop_body_def far_end_def next_hop_def termination_type_def termination_id_def
  object_to_path_node_def isinstance_of_def STATUS_CONNECTED_def connected_cable_def cterm_def




lemma trace_loop_hop: "(s, s') \<in> hop db \<Longrightarrow> trace_loop db s = trace_loop db s'"
  by (subst trace_loop.simps) (simp add: hop_def)







lemma those_attrs_rear_port_id [simp]:
  "those_attrs (map (get_rear_port_id \<circ> FrontPort) fps) = Some (map rear_port_id fps)"
  by (induction fps) simp_all

lemma those_attrs_rear_port_position [simp]:
  "those_attrs (map (get_rear_port_position \<circ> FrontPort) fps) = Some (map rear_port_position fps)"
  by (induction fps) simp_all

lemma those_attrs_term_side [simp]:
  "those_attrs (map (get_term_side \<circ> CircuitTermination) cts) = Some (map term_side cts)"
  by (induction cts) simp_all

lemma next_hop_front_ports_push:
  assumes "fps \<noteq> []"
    and "filter (\<lambda>rp. rp_pk rp \<in> set (map rear_port_id fps)) (rear_ports db) = [rp]"
    and "positions rp > 1"
  shows "next_hop db s (map FrontPort fps) =
           Inr (Continue (s\<lparr>st_terminations := [RearPort rp],
                            st_position_stack := st_position_stack s @ [map rear_port_position fps]\<rparr>))"
proof -
  from assms(1) obtain fp0 rest where fps: "fps = fp0 # rest" by (cases fps) auto
  show ?thesis
    using assms(2,3) unfolding fps by (simp add: next_hop_def Let_def)
qed

lemma next_hop_rear_port_pop:
  assumes "positions rp \<noteq> 1"
  shows "next_hop db s [RearPort rp] =
           (if st_position_stack s \<noteq> [] then
              Inr (Continue (s\<lparr>st_terminations :=
                     map FrontPort (filter (\<lambda>fp. rear_port_id fp = rp_pk rp \<and>
                                                  rear_port_position fp \<in> set (last (st_position_stack s)))
                                           (front_ports db)),
                     st_position_stack := butlast (st_position_stack s)\<rparr>))
            else Inr (Break (s\<lparr>st_is_split := True\<rparr>)))"
  using assms by (simp add: next_hop_def)

lemma next_hop_rear_ports_position_1:
  assumes "rps \<noteq> []" and "length rps > 1 \<or> positions (hd rps) = 1"
  shows "next_hop db s (map RearPort rps) =
           Inr (Continue (s\<lparr>st_terminations :=
                  map FrontPort (filter (\<lambda>fp. rear_port_id fp \<in> set (map rp_pk rps) \<and>
                                               rear_port_position fp = 1)
                                        (front_ports db))\<rparr>))"
proof -
  from assms(1) obtain rp0 rest where rps: "rps = rp0 # rest" by (cases rps) auto
  have pk: "pk_of \<circ> RearPort = rp_pk" by (rule ext) simp
  show ?thesis
    using assms(2) unfolding rps by (auto simp: next_hop_def pk)
qed

lemma hop_flags:
  assumes "(s, s') \<in> hop db"
  shows "st_is_complete s' = st_is_complete s \<and> st_is_split s' = st_is_split s \<and> st_path s' \<noteq> []"
proof -
  from assms have "loop_body db s = Inr (Continue s')" by (simp add: hop_def)
  from loop_body_Continue [OF this] show ?thesis by auto
qed

lemma hops_flags:
  "(s, s') \<in> (hop db)\<^sup>* \<Longrightarrow> st_is_complete s' = st_is_complete s \<and> st_is_split s' = st_is_split s"
  by (induction rule: rtrancl_induct) (auto dest: hop_flags)

lemma hops_path: "(s, s') \<in> (hop db)\<^sup>+ \<Longrightarrow> st_path s' \<noteq> []"
  by (induction rule: trancl_induct) (auto dest: hop_flags)

lemma trace_loop_hops: "(s, s') \<in> (hop db)\<^sup>* \<Longrightarrow> trace_loop db s = trace_loop db s'"
  by (induction rule: rtrancl_induct) (auto dest: trace_loop_hop)

lemma initial_hops_not_complete:
  "(initial_state sh ts, s) \<in> (hop db)\<^sup>* \<Longrightarrow> \<not> st_is_complete s \<and> \<not> st_is_split s"
  using hops_flags [of "initial_state sh ts" s db] by (simp add: initial_state_def)

lemma next_hop_circuit:
  assumes "list_all (\<lambda>c. term_side c = term_side ct0) cts"
  shows "next_hop db s (map CircuitTermination (ct0 # cts)) =
           (case filter (\<lambda>c. circuit c = circuit ct0 \<and>
                              term_side c = (if term_side ct0 = SideA then SideZ else SideA))
                        (circuit_terminations db) of
              [] \<Rightarrow> Inr (Break s)
            | p # ps \<Rightarrow>
                (case provider_network p of
                   Some pn \<Rightarrow>
                     Inr (Break (s\<lparr>st_path := st_path s @
                            [[(CircuitTerminationCT, ct_pk p)], [(ProviderNetworkCT, pn)]]\<rparr>))
                 | None \<Rightarrow>
                     (case site p of
                        Some si \<Rightarrow>
                          if cable p = None then
                            Inr (Break (s\<lparr>st_path := st_path s @
                                   [[(CircuitTerminationCT, ct_pk p)], [(SiteCT, si)]]\<rparr>))
                          else Inr (Continue (s\<lparr>st_terminations := [CircuitTermination p]\<rparr>))
                      | None \<Rightarrow> Inr (Continue (s\<lparr>st_terminations := [CircuitTermination p]\<rparr>)))))"
proof -
  have "list_all (\<lambda>sd. sd = term_side ct0) (map term_side cts)"
    using assms by (simp add: list.pred_map comp_def)
  then have nh: "next_hop db s (map CircuitTermination (ct0 # cts)) =
      (case filter (\<lambda>c. circuit c = circuit ct0 \<and>
                         term_side c = (if term_side ct0 = SideA then SideZ else SideA))
                   (circuit_terminations db) of
         [] \<Rightarrow> Inr (Break s)
       | circuit_termination # x \<Rightarrow>
           (case provider_network circuit_termination of
              Some pn \<Rightarrow>
                Inr (Break (s\<lparr>st_path := st_path s @
                       [[object_to_path_node (CircuitTermination circuit_termination)],
                        [(ProviderNetworkCT, pn)]]\<rparr>))
            | None \<Rightarrow>
                (case site circuit_termination of
                   Some si \<Rightarrow>
                     if cable circuit_termination = None then
                       Inr (Break (s\<lparr>st_path := st_path s @
                              [[object_to_path_node (CircuitTermination circuit_termination)],
                               [(SiteCT, si)]]\<rparr>))
                     else Inr (Continue (s\<lparr>st_terminations := [CircuitTermination circuit_termination]\<rparr>))
                 | None \<Rightarrow>
                     Inr (Continue (s\<lparr>st_terminations := [CircuitTermination circuit_termination]\<rparr>)))))"
    unfolding next_hop_def by simp
  show ?thesis
  proof (cases "filter (\<lambda>c. circuit c = circuit ct0 \<and>
                         term_side c = (if term_side ct0 = SideA then SideZ else SideA))
                   (circuit_terminations db)")
    case Nil
    then show ?thesis unfolding nh by (simp only: list.case)
  next
    case (Cons p ps)
    show ?thesis unfolding nh Cons
      by (cases "provider_network p"; cases "site p"; cases "cable p")
         (simp_all add: object_to_path_node_def)
  qed
qed

lemma loop_body_no_link:
  assumes "st_terminations s = t0 # rest"
    and "list_all (\<lambda>t. isinstance_of t t0) rest"
    and "list_all (\<lambda>t. parent_object db t = parent_object db t0) rest"
    and "list_all (\<lambda>t. link_of db t = None) (t0 # rest)"
  shows "loop_body db s =
           (if st_path s = [] then Inr ReturnNone
            else Inr (Break (s\<lparr>st_path := st_path s @ [map object_to_path_node (t0 # rest)]\<rparr>)))"
proof -
  from assms(4) have l: "link_of db t0 = None" and "list_all (\<lambda>t. link_of db t = None) rest" by simp_all
  then have "list_all (\<lambda>t. link_of db t = link_of db t0) rest" by simp
  with assms(1-3) l show ?thesis by (simp add: loop_body_def)
qed

lemma from_origin_shape_and_origin:
  assumes "from_origin db sh ts = Some (Inr (Some cp))"
  shows "path_shape (path cp) \<and> (ts \<noteq> [] \<longrightarrow> path cp \<noteq> [] \<and> hd (path cp) = map object_to_path_node ts)"
proof -
  define I where "I = (\<lambda>s :: trace_state. segments (st_path s) \<and>
                 (if st_path s = [] then st_terminations s = ts
                  else hd (st_path s) = map object_to_path_node ts))"
  define Q where "Q = (\<lambda>r :: error + cable_path option. \<forall>c. r = Inr (Some c) \<longrightarrow>
                 path_shape (path c) \<and> (ts \<noteq> [] \<longrightarrow> path c \<noteq> [] \<and> hd (path c) = map object_to_path_node ts))"
  have run: "trace_loop db (initial_state sh ts) = Some (Inr (Some cp))"
    using assms by (simp add: from_origin_def)
  have init: "I (initial_state sh ts)"
    by (simp add: I_def initial_state_def)
  have c1: "I s'" if "I s" and "st_terminations s \<noteq> []" and c: "loop_body db s = Inr (Continue s')" for s s'
    using that loop_body_Continue_segments [OF c] loop_body_Continue_origin [OF c, of ts]
    by (simp add: I_def)
  have c2: "Q (Inr (Some (new_cable_path s)))" if "I s" and "st_terminations s = []" for s
    using that path_shape_segments by (auto simp: I_def Q_def new_cable_path_def split: if_splits)
  have c3: "Q (Inr (Some (new_cable_path s')))"
    if "I s" and "st_terminations s \<noteq> []" and b: "loop_body db s = Inr (Break s')" for s s'
    using that loop_body_Break_shape [OF b] loop_body_Break_origin [OF b, of ts]
    by (simp add: I_def Q_def new_cable_path_def)
  have c4: "Q (Inr None)" and c5: "Q (Inl e)" for e
    by (simp_all add: Q_def)
  have "Q (Inr (Some cp))"
    using run init c1 c2 c3 c4 c5 by (rule trace_loop_rule)
  then show ?thesis by (simp add: Q_def)
qed

section \<open>Stored paths\<close>

lemma path_node_to_object_node:
  assumes "path_node_to_object db n = Inr ob"
  shows "object_node ob = n"
proof -
  have f: "filter P xs = y # ys \<Longrightarrow> P y" for P and xs :: "'a list" and y ys
  proof -
    assume "filter P xs = y # ys"
    then have "y \<in> set (filter P xs)" by simp
    then show "P y" by simp
  qed
  obtain ct i where n: "n = (ct, i)" by (cases n)
  from assms show ?thesis unfolding n
    by (cases ct)
       (auto simp: path_node_to_object_def object_to_path_node_def
             split: if_splits list.splits dest: f)
qed

lemma collect_Inr:
  "collect (map f xs) = Inr ys \<Longrightarrow> list_all2 (\<lambda>x y. f x = Inr y) xs ys"
proof (induction xs arbitrary: ys)
  case Nil
  then show ?case by simp
next
  case (Cons x xs)
  then show ?case
    by (cases "f x"; cases "collect (map f xs)") auto
qed

lemma collect_all_Inr:
  "list_all2 (\<lambda>x y. f x = Inr y) xs ys \<Longrightarrow> collect (map f xs) = Inr ys"
  by (induction rule: list_all2_induct) simp_all

lemma collect_lookup_nodes:
  assumes "collect (map (path_node_to_object db) g) = Inr os"
  shows "map object_node os = g \<and> collect (map (path_node_to_object db) (map object_node os)) = Inr os"
proof -
  from collect_Inr [OF assms] have a: "list_all2 (\<lambda>n ob. path_node_to_object db n = Inr ob) g os" .
  then have "list_all2 (\<lambda>n ob. object_node ob = n) g os"
    by (rule list_all2_mono) (rule path_node_to_object_node)
  then have g: "map object_node os = g"
    by (induction rule: list_all2_induct) simp_all
  with assms show ?thesis by simp
qed

lemma those_attrs_get_termination:
  "those_attrs (map get_termination os) = Some ts \<Longrightarrow> os = map TerminationObject ts"
proof (induction os arbitrary: ts)
  case Nil
  then show ?case by simp
next
  case (Cons ob os)
  then show ?case
    by (cases ob; cases "those_attrs (map get_termination os)") auto
qed

lemma object_node_TerminationObject: "map object_node (map TerminationObject ts) = map object_to_path_node ts"
  by simp

lemma save_result:
  assumes "save db st cp = Inr (cp', st')"
  shows "\<exists>i os o0 rest.
           i = (case pk cp of Some j \<Rightarrow> j | None \<Rightarrow> next_pk st) \<and>
           cp' = cp\<lparr>nodes := Some (flatten_path (path cp)), pk := Some i\<rparr> \<and>
           origins db cp' = Inr os \<and> os = o0 # rest \<and>
           cable_paths st' = (cable_paths st)(i := Some cp') \<and>
           next_pk st' = (if pk cp = None then Suc (next_pk st) else next_pk st) \<and>
           path_refs st' = (\<lambda>n. if fst n = fst (object_node o0) \<and>
                                      snd n \<in> set (map (\<lambda>ob. snd (object_node ob)) os) \<and> row_exists db n
                                   then Some i else path_refs st n)"
  using assms
  by (auto simp: save_def Let_def split: sum.splits list.splits)


lemma from_origin_objects_Some:
  assumes "from_origin_objects db os = Some (Inr (Some new))" and "os \<noteq> []"
  shows "\<exists>ts. os = map TerminationObject ts \<and> ts \<noteq> [] \<and> from_origin db False ts = Some (Inr (Some new)) \<and>
              list_all (\<lambda>ob. fst (object_node ob) = fst (object_node (hd os))) os"
proof -
  from assms(2) obtain o0 rest where os: "os = o0 # rest" by (cases os) auto
  from assms(1) obtain ts where ts: "those_attrs (map get_termination os) = Some ts"
    and run: "from_origin db False ts = Some (Inr (Some new))"
    and same: "list_all (\<lambda>ob. fst (object_node ob) = fst (object_node o0)) rest"
    unfolding os from_origin_objects_def
    by (auto simp del: those_attrs.simps list.map split: if_splits option.splits)
  from those_attrs_get_termination [OF ts] have m: "os = map TerminationObject ts" .
  with assms(2) have "ts \<noteq> []" by auto
  with m run same os show ?thesis by auto
qed

lemma from_origin_empty:
  "from_origin db sh [] = Some (Inr (Some (new_cable_path (initial_state sh []))))"
  unfolding from_origin_def by (subst trace_loop.simps) (simp add: initial_state_def)

lemma origins_retraced:
  assumes o: "origins db cp = Inr os"
    and run: "from_origin_objects db os = Some (Inr (Some new))"
    and o': "origins db (cp\<lparr>path := path new, is_complete := c, is_active := a, is_split := sp,
                            nodes := ns, pk := k\<rparr>) = Inr os'"
  shows "os' = os"
proof (cases "path_objects_cache cp")
  case (Some po)
  with o o' show ?thesis by (simp add: origins_def)
next
  case None
  show ?thesis
  proof (cases "os = []")
    case True
    with run have "new = new_cable_path (initial_state False [])"
      by (simp add: from_origin_objects_def from_origin_empty)
    then have "path new = []" by (simp add: new_cable_path_def initial_state_def)
    with o' None show ?thesis by (simp add: origins_def)
  next
    case False
    from from_origin_objects_Some [OF run False] obtain ts where
      m: "os = map TerminationObject ts" and ts: "ts \<noteq> []" and
      r: "from_origin db False ts = Some (Inr (Some new))" by blast
    from from_origin_shape_and_origin [OF r] ts have
      p: "path new \<noteq> []" and h: "hd (path new) = map object_to_path_node ts" by simp_all
    from o None obtain g gs where g: "path cp = g # gs"
      and c: "collect (map (path_node_to_object db) g) = Inr os"
      by (auto simp: origins_def split: list.splits)
    have "map object_node os = hd (path new)" by (simp add: m h)
    with collect_lookup_nodes [OF c, THEN conjunct2]
    have "collect (map (path_node_to_object db) (hd (path new))) = Inr os" by (simp only:)
    with o' None p show ?thesis
      by (cases "path new") (simp_all add: origins_def)
  qed
qed

lemma retrace_saved:
  assumes "retrace db st cp = Some (Inr (cp', st'))" and "pk cp' \<noteq> None"
  shows "\<exists>os new. origins db cp = Inr os \<and> from_origin_objects db os = Some (Inr (Some new)) \<and>
           save db st (cp\<lparr>path := path new, is_complete := is_complete new,
                            is_active := is_active new, is_split := is_split new\<rparr>) = Inr (cp', st')"
  using assms
  by (auto simp: retrace_def delete_def clear_back_references_def split: sum.splits option.splits)


lemma origins_retraced_exists:
  assumes o: "origins db cp = Inr os" and ne: "os \<noteq> []"
    and run: "from_origin_objects db os = Some (Inr (Some new))"
  shows "origins db (cp\<lparr>path := path new, is_complete := c, is_active := a, is_split := sp,
                            nodes := ns, pk := k\<rparr>) = Inr os"
proof (cases "path_objects_cache cp")
  case (Some po)
  with o show ?thesis by (simp add: origins_def)
next
  case None
  from from_origin_objects_Some [OF run ne] obtain ts where
    m: "os = map TerminationObject ts" and ts: "ts \<noteq> []" and
    r: "from_origin db False ts = Some (Inr (Some new))" by blast
  from from_origin_shape_and_origin [OF r] ts have
    p: "path new \<noteq> []" and h: "hd (path new) = map object_to_path_node ts" by simp_all
  from o None obtain g gs where g: "path cp = g # gs"
    and c: "collect (map (path_node_to_object db) g) = Inr os"
    by (auto simp: origins_def split: list.splits)
  have "map object_node os = hd (path new)" by (simp add: m h)
  with collect_lookup_nodes [OF c, THEN conjunct2]
  have "collect (map (path_node_to_object db) (hd (path new))) = Inr os" by (simp only:)
  with None p show ?thesis
    by (cases "path new") (simp_all add: origins_def)
qed

lemma save_succeeds:
  assumes "origins db (cp\<lparr>nodes := Some (flatten_path (path cp)), pk := Some i\<rparr>) = Inr os"
    and "os \<noteq> []" and "pk cp = Some i"
  shows "\<exists>st'. save db st cp = Inr (cp\<lparr>nodes := Some (flatten_path (path cp))\<rparr>, st') \<and>
               cable_paths st' i = Some (cp\<lparr>nodes := Some (flatten_path (path cp))\<rparr>)"
proof -
  from assms(2) obtain o0 rest where os: "os = o0 # rest" by (cases os) auto
  have same: "cp\<lparr>nodes := Some (flatten_path (path cp)), pk := Some i\<rparr> =
              cp\<lparr>nodes := Some (flatten_path (path cp))\<rparr>"
    using assms(3) by simp
  show ?thesis
    using assms(1) unfolding save_def Let_def assms(3) option.case same os
    by simp
qed

lemma retrace_saves:
  assumes o: "origins db cp = Inr os" and ne: "os \<noteq> []"
    and run: "from_origin_objects db os = Some (Inr (Some new))" and k: "pk cp = Some i"
  shows "\<exists>st'. retrace db st cp =
               Some (Inr (cp\<lparr>path := path new, is_complete := is_complete new, is_active := is_active new,
                              is_split := is_split new, nodes := Some (flatten_path (path new))\<rparr>, st')) \<and>
             cable_paths st' i =
               Some (cp\<lparr>path := path new, is_complete := is_complete new, is_active := is_active new,
                         is_split := is_split new, nodes := Some (flatten_path (path new))\<rparr>)"
proof -
  let ?cp1 = "cp\<lparr>path := path new, is_complete := is_complete new, is_active := is_active new,
                   is_split := is_split new\<rparr>"
  let ?cp' = "cp\<lparr>path := path new, is_complete := is_complete new, is_active := is_active new,
                   is_split := is_split new, nodes := Some (flatten_path (path new))\<rparr>"
  have "origins db (?cp1\<lparr>nodes := Some (flatten_path (path ?cp1)), pk := Some i\<rparr>) = Inr os"
    using origins_retraced_exists [OF o ne run] by simp
  from save_succeeds [OF this ne] k obtain st' where
    sv: "save db st ?cp1 = Inr (?cp', st')" and tbl: "cable_paths st' i = Some ?cp'"
    by auto
  have "retrace db st cp = Some (Inr (?cp', st'))"
    unfolding retrace_def by (simp add: o run sv)
  with tbl show ?thesis by blast
qed

lemma collect_row_exists:
  assumes "collect (map (path_node_to_object db) g) = Inr os" and "ob \<in> set os"
  shows "row_exists db (object_node ob)"
proof -
  from collect_Inr [OF assms(1)] have "list_all2 (\<lambda>n ob. path_node_to_object db n = Inr ob) g os" .
  then have "ob \<in> set os \<longrightarrow> (\<exists>n. path_node_to_object db n = Inr ob)"
    by (induction rule: list_all2_induct) auto
  with assms(2) obtain n where n: "path_node_to_object db n = Inr ob" by blast
  from path_node_to_object_node [OF n] n show ?thesis by (simp add: row_exists_def)
qed

lemma save_back_references:
  assumes sv: "save db st cp = Inr (cp', st')" and cache: "path_objects_cache cp = None"
    and o: "origins db cp' = Inr os"
    and same: "list_all (\<lambda>ob. fst (object_node ob) = fst (object_node (hd os))) os"
  shows "pk cp' \<noteq> None \<and> list_all (\<lambda>ob. path_refs st' (object_node ob) = pk cp') os"
proof -
  from save_result [OF sv] o obtain i o0 rest where
    cp': "cp' = cp\<lparr>nodes := Some (flatten_path (path cp)), pk := Some i\<rparr>" and
    os: "os = o0 # rest" and
    refs: "path_refs st' = (\<lambda>n. if fst n = fst (object_node o0) \<and>
                                      snd n \<in> set (map (\<lambda>ob. snd (object_node ob)) os) \<and> row_exists db n
                                   then Some i else path_refs st n)"
    by auto
  from o cache cp' obtain g gs where "collect (map (path_node_to_object db) g) = Inr os"
    by (auto simp: origins_def split: list.splits)
  then have ex: "row_exists db (object_node ob)" if "ob \<in> set os" for ob
    using that by (rule collect_row_exists)
  have "path_refs st' (object_node ob) = Some i" if "ob \<in> set os" for ob
    using that ex [OF that] same unfolding refs os by (auto simp: list_all_iff)
  then show ?thesis by (simp add: cp' list_all_iff)
qed

lemma stale_path_origins:
  "origins patch_db stale_path = Inr [TerminationObject if_a] \<and>
   from_origin_objects patch_db [TerminationObject if_a] = Some (Inr (Some patch_path)) \<and>
   pk stale_path = Some 1"
  by code_simp

lemma unlinked_path_origins:
  "origins patch_db unlinked_path = Inr [TerminationObject (RearPort patch_rp)] \<and>
   from_origin_objects patch_db [TerminationObject (RearPort patch_rp)] = Some (Inr None) \<and>
   pk unlinked_path = Some 2"
  by code_simp

section \<open>Activity and completeness\<close>

text \<open>
  Claim C1. An active path is complete: \<open>is_active\<close> holds only when the trace reached a
  terminal endpoint and every cable crossed is connected; a trace that halts early must
  have \<open>is_active = False\<close>. The code does not do this: traced from interface A of
  \<open>patch_db\<close>, the walk crosses the connected cable 1, passes from the front port to its
  rear port, finds no link there and halts, and the path returned is active and not
  complete.
\<close>

theorem from_origin_active_not_complete:
  "from_origin patch_db False [if_a] = Some (Inr (Some patch_path)) \<and>
   is_active patch_path \<and> \<not> is_complete patch_path"
  by code_simp

section \<open>Destinations\<close>

text \<open>
  Claim C10. For a path with \<open>is_complete = False\<close>, \<open>destinations\<close> is the empty list and
  \<open>destination_type\<close> is \<open>None\<close>, whatever the path and the cache hold (the last
  hop-group is not read: an empty path would raise \<open>IndexError\<close>). For a path with
  \<open>is_complete = True\<close> the result is read off the last hop-group.
\<close>

theorem destinations_only_when_complete:
  "(\<not> is_complete cp \<longrightarrow>
      destinations db (cp\<lparr>path := p, path_objects_cache := c\<rparr>) = Inr [] \<and>
      destination_type (cp\<lparr>path := p\<rparr>) = Inr None) \<and>
   (is_complete cp' \<and> path cp' \<noteq> [] \<and> path_objects_cache cp' = None \<longrightarrow>
      destinations db' cp' = collect (map (path_node_to_object db') (last (path cp'))) \<and>
      destination_type cp' = (case last (path cp') of [] \<Rightarrow> Inl IndexError | n # ns \<Rightarrow> Inr (Some (fst n))))"
  by (simp add: destinations_def destination_type_def)

theorem destinations_only_when_complete_witness:
  "\<not> is_complete patch_path \<and>
   destinations patch_db (patch_path\<lparr>path := [], path_objects_cache := Some []\<rparr>) = Inr [] \<and>
   destination_type (patch_path\<lparr>path := []\<rparr>) = Inr None \<and>
   is_complete (patch_path\<lparr>is_complete := True, path := [[(EndpointCT Interface, 1)]]\<rparr>) \<and>
   destinations patch_db (patch_path\<lparr>is_complete := True, path := [[(EndpointCT Interface, 1)]]\<rparr>) =
     Inr [TerminationObject if_a] \<and>
   destination_type (patch_path\<lparr>is_complete := True, path := [[(EndpointCT Interface, 1)]]\<rparr>) =
     Inr (Some (EndpointCT Interface))"
  using destinations_only_when_complete
          [where cp = patch_path and db = patch_db and p = "[]" and c = "Some []"
             and cp' = "patch_path\<lparr>is_complete := True, path := [[(EndpointCT Interface, 1)]]\<rparr>"
             and db' = patch_db]
  by (simp add: patch_path_def patch_db_def path_node_to_object_def if_a_def)

section \<open>Shape of the traced path\<close>

text \<open>
  Claim C2, as stated: the path returned by \<open>from_origin\<close> strictly alternates between
  termination hop-groups and link hop-groups, starting with a termination hop-group,
  also when the trace halts at a provider network or a site. It does not: each hop
  appends a near-end group, a link and a far-end group, so the far-end group of one
  hop is followed by the near-end group of the next (front port, then rear port), and a
  halt at a provider network leaves three groups in a row that are not links.
\<close>

theorem from_origin_not_alternating:
  "from_origin patch_db False [if_a] = Some (Inr (Some patch_path)) \<and>
   \<not> alternates True (path patch_path) \<and>
   from_origin circuit_db False [if_a] = Some (Inr (Some circuit_path)) \<and>
   \<not> alternates True (path circuit_path)"
  by code_simp

text \<open>
  Claim C2, amended: the path returned by \<open>from_origin\<close> is a sequence of segments, each
  a near-end termination group, a link group holding exactly one link and a far-end
  termination group; after the segments it ends, or has one more termination group (a
  later hop without link), or has the paired circuit termination followed by its
  provider network or site. For a non-empty origin set the first group is the origin
  set.
\<close>

theorem from_origin_path_shape:
  assumes "from_origin db sh ts = Some (Inr (Some cp))"
  shows "path_shape (path cp) \<and> (ts \<noteq> [] \<longrightarrow> path cp \<noteq> [] \<and> hd (path cp) = map object_to_path_node ts)"
  using assms by (rule from_origin_shape_and_origin)

theorem from_origin_path_shape_witness:
  "from_origin circuit_db False [if_a] = Some (Inr (Some circuit_path)) \<and>
   path_shape (path circuit_path) \<and>
   path circuit_path \<noteq> [] \<and> hd (path circuit_path) = map object_to_path_node [if_a]"
proof -
  have h: "from_origin circuit_db False [if_a] = Some (Inr (Some circuit_path))"
    by code_simp
  from from_origin_path_shape [OF h] h show ?thesis by simp
qed

section \<open>Termination of the trace\<close>




section \<open>The position stack\<close>

text \<open>
  Claim C4. Step 6 on pass-through ports. Front ports that resolve to exactly one rear
  port with more than one position: their positions are appended to the position stack
  and the trace continues with that rear port. A single rear port with more than one
  position: with a non-empty stack the trace continues with the front ports of that rear
  port at the positions popped from the end of the stack; with an empty stack it halts
  with \<open>is_split = True\<close>. More than one rear port, or a single rear port with one
  position: the trace continues with the front ports at position 1 of each rear port.
  The stack is last-in first-out: the positions pushed last are the ones popped.
\<close>

theorem position_stack_discipline:
  "(fps \<noteq> [] \<and> filter (\<lambda>r. rp_pk r \<in> set (map rear_port_id fps)) (rear_ports db1) = [rp1] \<and>
    positions rp1 > 1 \<longrightarrow>
      next_hop db1 s1 (map FrontPort fps) =
        Inr (Continue (s1\<lparr>st_terminations := [RearPort rp1],
                          st_position_stack := st_position_stack s1 @ [map rear_port_position fps]\<rparr>))) \<and>
   (positions rp2 > 1 \<and> st_position_stack s2 \<noteq> [] \<longrightarrow>
      next_hop db2 s2 [RearPort rp2] =
        Inr (Continue (s2\<lparr>st_terminations :=
               map FrontPort (filter (\<lambda>fp. rear_port_id fp = rp_pk rp2 \<and>
                                            rear_port_position fp \<in> set (last (st_position_stack s2)))
                                     (front_ports db2)),
               st_position_stack := butlast (st_position_stack s2)\<rparr>))) \<and>
   (positions rp3 > 1 \<and> st_position_stack s3 = [] \<longrightarrow>
      next_hop db3 s3 [RearPort rp3] = Inr (Break (s3\<lparr>st_is_split := True\<rparr>)) \<and>
      is_split (new_cable_path (s3\<lparr>st_is_split := True\<rparr>))) \<and>
   (rps \<noteq> [] \<and> (length rps > 1 \<or> positions (hd rps) = 1) \<longrightarrow>
      next_hop db4 s4 (map RearPort rps) =
        Inr (Continue (s4\<lparr>st_terminations :=
               map FrontPort (filter (\<lambda>fp. rear_port_id fp \<in> set (map rp_pk rps) \<and>
                                            rear_port_position fp = 1)
                                     (front_ports db4))\<rparr>))) \<and>
   (positions rp5 > 1 \<longrightarrow>
      next_hop db5 (s5\<lparr>st_position_stack := stack @ [ps]\<rparr>) [RearPort rp5] =
        Inr (Continue (s5\<lparr>st_terminations :=
               map FrontPort (filter (\<lambda>fp. rear_port_id fp = rp_pk rp5 \<and> rear_port_position fp \<in> set ps)
                                     (front_ports db5)),
               st_position_stack := stack\<rparr>)))"
proof (intro conjI impI)
  assume "fps \<noteq> [] \<and> filter (\<lambda>r. rp_pk r \<in> set (map rear_port_id fps)) (rear_ports db1) = [rp1] \<and>
    positions rp1 > 1"
  then show "next_hop db1 s1 (map FrontPort fps) =
        Inr (Continue (s1\<lparr>st_terminations := [RearPort rp1],
                          st_position_stack := st_position_stack s1 @ [map rear_port_position fps]\<rparr>))"
    by (simp add: next_hop_front_ports_push)
next
  assume "positions rp2 > 1 \<and> st_position_stack s2 \<noteq> []"
  then show "next_hop db2 s2 [RearPort rp2] =
        Inr (Continue (s2\<lparr>st_terminations :=
               map FrontPort (filter (\<lambda>fp. rear_port_id fp = rp_pk rp2 \<and>
                                            rear_port_position fp \<in> set (last (st_position_stack s2)))
                                     (front_ports db2)),
               st_position_stack := butlast (st_position_stack s2)\<rparr>))"
    by (simp add: next_hop_rear_port_pop)
next
  assume "positions rp3 > 1 \<and> st_position_stack s3 = []"
  then show "next_hop db3 s3 [RearPort rp3] = Inr (Break (s3\<lparr>st_is_split := True\<rparr>))"
    by (simp add: next_hop_rear_port_pop)
next
  show "is_split (new_cable_path (s3\<lparr>st_is_split := True\<rparr>))"
    by (simp add: new_cable_path_def)
next
  assume "rps \<noteq> [] \<and> (length rps > 1 \<or> positions (hd rps) = 1)"
  then show "next_hop db4 s4 (map RearPort rps) =
        Inr (Continue (s4\<lparr>st_terminations :=
               map FrontPort (filter (\<lambda>fp. rear_port_id fp \<in> set (map rp_pk rps) \<and>
                                            rear_port_position fp = 1)
                                     (front_ports db4))\<rparr>))"
    using next_hop_rear_ports_position_1 by blast
next
  assume "positions rp5 > 1"
  then show "next_hop db5 (s5\<lparr>st_position_stack := stack @ [ps]\<rparr>) [RearPort rp5] =
        Inr (Continue (s5\<lparr>st_terminations :=
               map FrontPort (filter (\<lambda>fp. rear_port_id fp = rp_pk rp5 \<and> rear_port_position fp \<in> set ps)
                                     (front_ports db5)),
               st_position_stack := stack\<rparr>))"
    by (simp add: next_hop_rear_port_pop)
qed

theorem position_stack_discipline_witness:
  "filter (\<lambda>r. rp_pk r \<in> set (map rear_port_id [loop_fp1])) (rear_ports loopback_db) = [loop_rp1] \<and>
   positions loop_rp1 > 1 \<and> positions loop_rp2 > 1 \<and> positions patch_rp = 1 \<and>
   next_hop loopback_db (initial_state False []) [FrontPort loop_fp1] =
     Inr (Continue ((initial_state False [])\<lparr>st_terminations := [RearPort loop_rp1], st_position_stack := [[1]]\<rparr>)) \<and>
   next_hop loopback_db ((initial_state False [])\<lparr>st_position_stack := [[1]]\<rparr>) [RearPort loop_rp2] =
     Inr (Continue ((initial_state False [])\<lparr>st_terminations := [FrontPort loop_fp2], st_position_stack := []\<rparr>)) \<and>
   next_hop loopback_db (initial_state False []) [RearPort loop_rp1] =
     Inr (Break ((initial_state False [])\<lparr>st_is_split := True\<rparr>)) \<and>
   next_hop patch_db (initial_state False []) [RearPort patch_rp] =
     Inr (Continue ((initial_state False [])\<lparr>st_terminations := [FrontPort patch_fp]\<rparr>))"
  using position_stack_discipline
          [where fps = "[loop_fp1]" and ?db1.0 = loopback_db and ?rp1.0 = loop_rp1 and ?s1.0 = "initial_state False []"
             and ?rp2.0 = loop_rp2 and ?db2.0 = loopback_db
             and ?s2.0 = "(initial_state False [])\<lparr>st_position_stack := [[1]]\<rparr>"
             and ?rp3.0 = loop_rp1 and ?db3.0 = loopback_db and ?s3.0 = "initial_state False []"
             and rps = "[patch_rp]" and ?db4.0 = patch_db and ?s4.0 = "initial_state False []"
             and ?rp5.0 = loop_rp2 and ?db5.0 = loopback_db and ?s5.0 = "initial_state False []"
             and stack = "[]" and ps = "[1]"]
  by (simp add: loopback_db_def patch_db_def loop_fp1_def loop_fp2_def loop_fp3_def loop_fp4_def
                loop_rp1_def loop_rp2_def patch_rp_def patch_fp_def initial_state_def)

section \<open>Circuit terminations\<close>

text \<open>
  Claim C5. Step 6 on circuit terminations that are all on the same side: the trace
  looks up the termination on the opposite side of the same circuit. With none, it
  halts with the state as it is. With one attached to a provider network, or one with a
  site and no cable, it appends the paired termination and the provider network or site
  and halts. Otherwise it continues with the paired termination. A halt leaves
  \<open>is_complete\<close> as it is, and \<open>is_complete\<close> is \<open>False\<close> in every state the loop reaches,
  so these paths have \<open>is_complete = False\<close>.
\<close>

theorem circuit_termination_hop:
  "(list_all (\<lambda>c. term_side c = term_side ct1) cts1 \<and>
    filter (\<lambda>c. circuit c = circuit ct1 \<and> term_side c = (if term_side ct1 = SideA then SideZ else SideA))
           (circuit_terminations db1) = [] \<longrightarrow>
      next_hop db1 s1 (map CircuitTermination (ct1 # cts1)) = Inr (Break s1) \<and>
      is_complete (new_cable_path s1) = st_is_complete s1) \<and>
   (list_all (\<lambda>c. term_side c = term_side ct2) cts2 \<and>
    filter (\<lambda>c. circuit c = circuit ct2 \<and> term_side c = (if term_side ct2 = SideA then SideZ else SideA))
           (circuit_terminations db2) = p2 # ps2 \<and>
    provider_network p2 = Some pn \<longrightarrow>
      next_hop db2 s2 (map CircuitTermination (ct2 # cts2)) =
        Inr (Break (s2\<lparr>st_path := st_path s2 @ [[(CircuitTerminationCT, ct_pk p2)], [(ProviderNetworkCT, pn)]]\<rparr>)) \<and>
      is_complete (new_cable_path
        (s2\<lparr>st_path := st_path s2 @ [[(CircuitTerminationCT, ct_pk p2)], [(ProviderNetworkCT, pn)]]\<rparr>)) =
        st_is_complete s2) \<and>
   (list_all (\<lambda>c. term_side c = term_side ct3) cts3 \<and>
    filter (\<lambda>c. circuit c = circuit ct3 \<and> term_side c = (if term_side ct3 = SideA then SideZ else SideA))
           (circuit_terminations db3) = p3 # ps3 \<and>
    provider_network p3 = None \<and> site p3 = Some si \<and> cable p3 = None \<longrightarrow>
      next_hop db3 s3 (map CircuitTermination (ct3 # cts3)) =
        Inr (Break (s3\<lparr>st_path := st_path s3 @ [[(CircuitTerminationCT, ct_pk p3)], [(SiteCT, si)]]\<rparr>)) \<and>
      is_complete (new_cable_path
        (s3\<lparr>st_path := st_path s3 @ [[(CircuitTerminationCT, ct_pk p3)], [(SiteCT, si)]]\<rparr>)) =
        st_is_complete s3) \<and>
   (list_all (\<lambda>c. term_side c = term_side ct4) cts4 \<and>
    filter (\<lambda>c. circuit c = circuit ct4 \<and> term_side c = (if term_side ct4 = SideA then SideZ else SideA))
           (circuit_terminations db4) = p4 # ps4 \<and>
    provider_network p4 = None \<and> (site p4 = None \<or> cable p4 \<noteq> None) \<longrightarrow>
      next_hop db4 s4 (map CircuitTermination (ct4 # cts4)) =
        Inr (Continue (s4\<lparr>st_terminations := [CircuitTermination p4]\<rparr>))) \<and>
   ((initial_state sh ts, s5) \<in> (hop db5)\<^sup>* \<longrightarrow> \<not> st_is_complete s5)"
  using initial_hops_not_complete [of sh ts s5 db5]
  by (auto simp: next_hop_circuit new_cable_path_def simp del: list.map split: option.splits)

theorem circuit_termination_hop_witness:
  "next_hop (circuit_db\<lparr>circuit_terminations := [circuit_ct_a]\<rparr>) (initial_state False [])
     [CircuitTermination circuit_ct_a] = Inr (Break (initial_state False [])) \<and>
   \<not> is_complete (new_cable_path (initial_state False [])) \<and>
   provider_network circuit_ct_z = Some 7 \<and>
   next_hop circuit_db (initial_state False []) [CircuitTermination circuit_ct_a] =
     Inr (Break ((initial_state False [])\<lparr>st_path := [[(CircuitTerminationCT, 2)], [(ProviderNetworkCT, 7)]]\<rparr>)) \<and>
   provider_network circuit_ct_site = None \<and> site circuit_ct_site = Some 2 \<and> cable circuit_ct_site = None \<and>
   next_hop (circuit_db\<lparr>circuit_terminations := [circuit_ct_a, circuit_ct_site]\<rparr>) (initial_state False [])
     [CircuitTermination circuit_ct_a] =
     Inr (Break ((initial_state False [])\<lparr>st_path := [[(CircuitTerminationCT, 2)], [(SiteCT, 2)]]\<rparr>)) \<and>
   provider_network circuit_ct_a = None \<and> cable circuit_ct_a \<noteq> None \<and>
   next_hop circuit_db (initial_state False []) [CircuitTermination circuit_ct_z] =
     Inr (Continue ((initial_state False [])\<lparr>st_terminations := [CircuitTermination circuit_ct_a]\<rparr>)) \<and>
   (initial_state False [if_a], initial_state False [if_a]) \<in> (hop circuit_db)\<^sup>* \<and>
   \<not> st_is_complete (initial_state False [if_a])"
  using circuit_termination_hop
          [where ?ct1.0 = circuit_ct_a and ?cts1.0 = "[]"
             and ?db1.0 = "circuit_db\<lparr>circuit_terminations := [circuit_ct_a]\<rparr>"
             and ?s1.0 = "initial_state False []"
             and ?ct2.0 = circuit_ct_a and ?cts2.0 = "[]" and ?db2.0 = circuit_db
             and ?p2.0 = circuit_ct_z and ?ps2.0 = "[]" and pn = 7 and ?s2.0 = "initial_state False []"
             and ?ct3.0 = circuit_ct_a and ?cts3.0 = "[]"
             and ?db3.0 = "circuit_db\<lparr>circuit_terminations := [circuit_ct_a, circuit_ct_site]\<rparr>"
             and ?p3.0 = circuit_ct_site and ?ps3.0 = "[]" and si = 2 and ?s3.0 = "initial_state False []"
             and ?ct4.0 = circuit_ct_z and ?cts4.0 = "[]" and ?db4.0 = circuit_db
             and ?p4.0 = circuit_ct_a and ?ps4.0 = "[]" and ?s4.0 = "initial_state False []"
             and ts = "[if_a]" and ?s5.0 = "initial_state False [if_a]" and ?db5.0 = circuit_db]
  by (simp add: circuit_db_def circuit_ct_a_def circuit_ct_z_def circuit_ct_site_def initial_state_def
                new_cable_path_def)

section \<open>Terminations without a link\<close>

text \<open>
  Claim C6. When the origin terminations (of one class, with one parent) have no link,
  \<open>from_origin\<close> returns \<open>None\<close>. When the terminations of a later hop have no link, the
  trace halts there: the path returned ends with that hop's terminations and has
  \<open>is_complete = False\<close>.
\<close>

theorem no_link_handling:
  "(list_all (\<lambda>t. isinstance_of t t0) rest \<and>
    list_all (\<lambda>t. parent_object db t = parent_object db t0) rest \<and>
    list_all (\<lambda>t. link_of db t = None) (t0 # rest) \<longrightarrow>
      from_origin db sh0 (t0 # rest) = Some (Inr None)) \<and>
   ((initial_state sh ts, s) \<in> (hop db')\<^sup>+ \<and> st_terminations s = t1 # rest' \<and>
    list_all (\<lambda>t. isinstance_of t t1) rest' \<and>
    list_all (\<lambda>t. parent_object db' t = parent_object db' t1) rest' \<and>
    list_all (\<lambda>t. link_of db' t = None) (t1 # rest') \<longrightarrow>
      from_origin db' sh ts =
        Some (Inr (Some (new_cable_path (s\<lparr>st_path := st_path s @ [map object_to_path_node (t1 # rest')]\<rparr>)))) \<and>
      \<not> is_complete (new_cable_path (s\<lparr>st_path := st_path s @ [map object_to_path_node (t1 # rest')]\<rparr>)))"
proof (intro conjI impI)
  assume h: "list_all (\<lambda>t. isinstance_of t t0) rest \<and>
    list_all (\<lambda>t. parent_object db t = parent_object db t0) rest \<and>
    list_all (\<lambda>t. link_of db t = None) (t0 # rest)"
  have "loop_body db (initial_state sh0 (t0 # rest)) = Inr ReturnNone"
    using h loop_body_no_link [of "initial_state sh0 (t0 # rest)" t0 rest db]
    by (simp add: initial_state_def)
  then show "from_origin db sh0 (t0 # rest) = Some (Inr None)"
    unfolding from_origin_def by (subst trace_loop.simps) (simp add: initial_state_def)
next
  assume h: "(initial_state sh ts, s) \<in> (hop db')\<^sup>+ \<and> st_terminations s = t1 # rest' \<and>
    list_all (\<lambda>t. isinstance_of t t1) rest' \<and>
    list_all (\<lambda>t. parent_object db' t = parent_object db' t1) rest' \<and>
    list_all (\<lambda>t. link_of db' t = None) (t1 # rest')"
  then have p: "st_path s \<noteq> []" using hops_path by blast
  from h have "loop_body db' s = Inr (Break (s\<lparr>st_path := st_path s @ [map object_to_path_node (t1 # rest')]\<rparr>))"
    using loop_body_no_link [of s t1 rest' db'] p by simp
  with h have "trace_loop db' s =
      Some (Inr (Some (new_cable_path (s\<lparr>st_path := st_path s @ [map object_to_path_node (t1 # rest')]\<rparr>))))"
    by (subst trace_loop.simps) simp
  moreover from h have "trace_loop db' (initial_state sh ts) = trace_loop db' s"
    using trace_loop_hops [of "initial_state sh ts" s db'] by (simp add: trancl_into_rtrancl)
  ultimately show "from_origin db' sh ts =
        Some (Inr (Some (new_cable_path (s\<lparr>st_path := st_path s @ [map object_to_path_node (t1 # rest')]\<rparr>))))"
    by (simp add: from_origin_def)
next
  assume h: "(initial_state sh ts, s) \<in> (hop db')\<^sup>+ \<and> st_terminations s = t1 # rest' \<and>
    list_all (\<lambda>t. isinstance_of t t1) rest' \<and>
    list_all (\<lambda>t. parent_object db' t = parent_object db' t1) rest' \<and>
    list_all (\<lambda>t. link_of db' t = None) (t1 # rest')"
  then have "\<not> st_is_complete s"
    using initial_hops_not_complete [of sh ts s db'] by (simp add: trancl_into_rtrancl)
  then show "\<not> is_complete (new_cable_path (s\<lparr>st_path := st_path s @ [map object_to_path_node (t1 # rest')]\<rparr>))"
    by (simp add: new_cable_path_def)
qed

theorem no_link_handling_witness:
  "link_of patch_db (RearPort patch_rp) = None \<and>
   from_origin patch_db False [RearPort patch_rp] = Some (Inr None) \<and>
   (initial_state False [if_a], patch_hop_state) \<in> (hop patch_db)\<^sup>+ \<and>
   from_origin patch_db False [if_a] = Some (Inr (Some patch_path)) \<and>
   \<not> is_complete patch_path"
proof -
  have l: "link_of patch_db (RearPort patch_rp) = None"
    by (simp add: patch_db_def patch_rp_def if_a_def)
  have "loop_body patch_db (initial_state False [if_a]) = Inr (Continue patch_hop_state)"
    by (simp add: eval_defs patch_db_def patch_hop_state_def initial_state_def if_a_def patch_fp_def
                  patch_rp_def)
  then have h: "(initial_state False [if_a], patch_hop_state) \<in> (hop patch_db)\<^sup>+"
    by (simp add: hop_def initial_state_def r_into_trancl)
  have p: "new_cable_path (patch_hop_state\<lparr>st_path := st_path patch_hop_state @
             [map object_to_path_node [RearPort patch_rp]]\<rparr>) = patch_path"
    by (simp add: new_cable_path_def patch_hop_state_def patch_path_def object_to_path_node_def patch_rp_def)
  show ?thesis
    using no_link_handling
            [where ?t0.0 = "RearPort patch_rp" and rest = "[]" and db = patch_db
               and ts = "[if_a]" and s = patch_hop_state and db' = patch_db
               and ?t1.0 = "RearPort patch_rp" and rest' = "[]"]
          l h p
    by (simp add: patch_hop_state_def)
qed

section \<open>Retracing\<close>



section \<open>Back-references\<close>

text \<open>
  Claim C8. After \<open>save\<close>, every origin of the path (origins of one model, read from the
  path) refers back to the path's primary key; so it does after a \<open>retrace\<close> that
  recomputed the path. After a \<open>retrace\<close> that deleted the path because its origin has
  no link, the path's row is gone and no back-reference holds its primary key.
\<close>

theorem back_reference_maintenance:
  "(save db st cp = Inr (cp', st') \<and> path_objects_cache cp = None \<and> origins db cp' = Inr os \<and>
    list_all (\<lambda>ob. fst (object_node ob) = fst (object_node (hd os))) os \<longrightarrow>
      pk cp' \<noteq> None \<and> list_all (\<lambda>ob. path_refs st' (object_node ob) = pk cp') os) \<and>
   (retrace db2 st2 cp2 = Some (Inr (cp2', st2')) \<and> pk cp2' \<noteq> None \<and> path_objects_cache cp2 = None \<and>
    origins db2 cp2' = Inr os2 \<longrightarrow>
      list_all (\<lambda>ob. path_refs st2' (object_node ob) = pk cp2') os2) \<and>
   (retrace db3 st3 cp3 = Some (Inr (cp3', st3')) \<and> pk cp3' = None \<and> pk cp3 = Some i \<longrightarrow>
      cable_paths st3' i = None \<and> (\<forall>n. path_refs st3' n \<noteq> Some i))"
proof (intro conjI impI)
  assume "save db st cp = Inr (cp', st') \<and> path_objects_cache cp = None \<and> origins db cp' = Inr os \<and>
    list_all (\<lambda>ob. fst (object_node ob) = fst (object_node (hd os))) os"
  then show "pk cp' \<noteq> None" and "list_all (\<lambda>ob. path_refs st' (object_node ob) = pk cp') os"
    using save_back_references by blast+
next
  assume h: "retrace db2 st2 cp2 = Some (Inr (cp2', st2')) \<and> pk cp2' \<noteq> None \<and> path_objects_cache cp2 = None \<and>
    origins db2 cp2' = Inr os2"
  from retrace_saved [of db2 st2 cp2 cp2' st2'] h obtain os new where
    o: "origins db2 cp2 = Inr os" and run: "from_origin_objects db2 os = Some (Inr (Some new))" and
    sv: "save db2 st2 (cp2\<lparr>path := path new, is_complete := is_complete new,
                            is_active := is_active new, is_split := is_split new\<rparr>) = Inr (cp2', st2')"
    by blast
  from save_result [OF sv] obtain k where
    cp': "cp2' = cp2\<lparr>path := path new, is_complete := is_complete new,
                      is_active := is_active new, is_split := is_split new,
                      nodes := Some (flatten_path (path new)), pk := Some k\<rparr>"
    by auto
  from h have o2: "origins db2 cp2' = Inr os2" by simp
  from origins_retraced [OF o run o2 [unfolded cp']] have eq: "os2 = os" .
  from save_result [OF sv] o2 have "os2 \<noteq> []" by auto
  with eq from_origin_objects_Some [OF run] have
    same: "list_all (\<lambda>ob. fst (object_node ob) = fst (object_node (hd os2))) os2" by auto
  from h have "path_objects_cache (cp2\<lparr>path := path new, is_complete := is_complete new,
                            is_active := is_active new, is_split := is_split new\<rparr>) = None" by simp
  from save_back_references [OF sv this o2 same]
  show "list_all (\<lambda>ob. path_refs st2' (object_node ob) = pk cp2') os2" by simp
next
  assume h: "retrace db3 st3 cp3 = Some (Inr (cp3', st3')) \<and> pk cp3' = None \<and> pk cp3 = Some i"
  then have d: "delete st3 cp3 = Inr (cp3', st3')"
    by (auto simp: retrace_def save_def Let_def split: sum.splits option.splits list.splits)
  with h show "cable_paths st3' i = None" and "\<forall>n. path_refs st3' n \<noteq> Some i"
    by (auto simp: delete_def clear_back_references_def split: if_splits)
qed

theorem back_reference_maintenance_witness:
  "(\<exists>cp' st'. save patch_db empty_store patch_path = Inr (cp', st') \<and>
       origins patch_db cp' = Inr [TerminationObject if_a] \<and> pk cp' = Some 1 \<and>
       path_refs st' (EndpointCT Interface, 1) = Some 1) \<and>
   (\<exists>cp' st'. retrace patch_db stale_store stale_path = Some (Inr (cp', st')) \<and>
       origins patch_db cp' = Inr [TerminationObject if_a] \<and> pk cp' = Some 1 \<and>
       path_refs st' (EndpointCT Interface, 1) = Some 1) \<and>
   (\<exists>cp' st'. retrace patch_db stale_store unlinked_path = Some (Inr (cp', st')) \<and>
       pk cp' = None \<and> path_refs stale_store (RearPortCT, 1) = Some 2 \<and>
       cable_paths st' 2 = None \<and> path_refs st' (RearPortCT, 1) = None)"
proof (intro conjI)
  let ?cp = "patch_path\<lparr>nodes := Some (flatten_path (path patch_path)), pk := Some 1\<rparr>"
  have o: "origins patch_db ?cp = Inr [TerminationObject if_a]"
    by code_simp
  obtain st' where sv: "save patch_db empty_store patch_path = Inr (?cp, st')"
    using o by (simp add: save_def Let_def empty_store_def patch_path_def)
  have "pk ?cp \<noteq> None \<and>
        list_all (\<lambda>ob. path_refs st' (object_node ob) = pk ?cp) [TerminationObject if_a]"
    using back_reference_maintenance
            [where db = patch_db and st = empty_store and cp = patch_path
               and cp' = ?cp and st' = st' and os = "[TerminationObject if_a]", THEN conjunct1]
          sv o
    by (simp add: patch_path_def)
  then have "path_refs st' (EndpointCT Interface, 1) = Some 1"
    by (simp add: object_to_path_node_def if_a_def)
  with sv o show "\<exists>cp' st'. save patch_db empty_store patch_path = Inr (cp', st') \<and>
       origins patch_db cp' = Inr [TerminationObject if_a] \<and> pk cp' = Some 1 \<and>
       path_refs st' (EndpointCT Interface, 1) = Some 1"
    by (intro exI [of _ ?cp] exI [of _ st']) simp
next
  have o: "origins patch_db retraced_path = Inr [TerminationObject if_a]"
    by code_simp
  have o0: "origins patch_db stale_path = Inr [TerminationObject if_a]"
    and run: "from_origin_objects patch_db [TerminationObject if_a] = Some (Inr (Some patch_path))"
    using stale_path_origins by simp_all
  have k: "pk stale_path = Some 1" by (simp add: stale_path_def)
  obtain st' where r: "retrace patch_db stale_store stale_path = Some (Inr (retraced_path, st'))"
    using retrace_saves [OF o0 _ run k] unfolding retraced_path_def by blast
  have "list_all (\<lambda>ob. path_refs st' (object_node ob) = pk retraced_path) [TerminationObject if_a]"
    using back_reference_maintenance
            [where ?db2.0 = patch_db and ?st2.0 = stale_store
               and ?cp2.0 = stale_path and ?cp2' = retraced_path and ?st2' = st'
               and ?os2.0 = "[TerminationObject if_a]", THEN conjunct2, THEN conjunct1]
          r o
    by (simp add: retraced_path_def stale_path_def)
  then have "path_refs st' (EndpointCT Interface, 1) = Some 1"
    by (simp add: object_to_path_node_def if_a_def retraced_path_def stale_path_def)
  with r o show "\<exists>cp' st'. retrace patch_db stale_store stale_path = Some (Inr (cp', st')) \<and>
       origins patch_db cp' = Inr [TerminationObject if_a] \<and> pk cp' = Some 1 \<and>
       path_refs st' (EndpointCT Interface, 1) = Some 1"
    by (intro exI [of _ retraced_path] exI [of _ st']) (simp add: retraced_path_def stale_path_def)
next
  have o0: "origins patch_db unlinked_path = Inr [TerminationObject (RearPort patch_rp)]"
    and run: "from_origin_objects patch_db [TerminationObject (RearPort patch_rp)] = Some (Inr None)"
    using unlinked_path_origins by simp_all
  have k: "pk unlinked_path = Some 2" by (simp add: unlinked_path_def)
  obtain st' where r: "retrace patch_db stale_store unlinked_path = Some (Inr (unlinked_path\<lparr>pk := None\<rparr>, st'))"
    by (simp add: retrace_def o0 run delete_def clear_back_references_def k)
  have "cable_paths st' 2 = None \<and> (\<forall>n. path_refs st' n \<noteq> Some 2)"
    using back_reference_maintenance
            [where ?db3.0 = patch_db and ?st3.0 = stale_store
               and ?cp3.0 = unlinked_path and ?cp3' = "unlinked_path\<lparr>pk := None\<rparr>" and ?st3' = st'
               and i = 2, THEN conjunct2, THEN conjunct2]
          r k
    by simp
  moreover have "path_refs st' (RearPortCT, 1) = None \<or> path_refs st' (RearPortCT, 1) = Some 2"
    using r by (auto simp: retrace_def o0 run delete_def clear_back_references_def k stale_store_def)
  ultimately have "cable_paths st' 2 = None \<and> path_refs st' (RearPortCT, 1) = None" by auto
  with r show "\<exists>cp' st'. retrace patch_db stale_store unlinked_path = Some (Inr (cp', st')) \<and>
       pk cp' = None \<and> path_refs stale_store (RearPortCT, 1) = Some 2 \<and>
       cable_paths st' 2 = None \<and> path_refs st' (RearPortCT, 1) = None"
    by (intro exI [of _ "unlinked_path\<lparr>pk := None\<rparr>"] exI [of _ st']) (simp add: stale_store_def)
qed

section \<open>Total length\<close>

text \<open>
  Claim C9. \<open>get_total_length\<close> returns the sum of the lengths of the path's cables that
  have one, and \<open>is_definitive\<close> is true exactly when every cable of the path has a
  length. The code compares the number of cable rows found with the number of cable
  nodes of the path, and misses the case of a cable crossed twice: on \<open>loopback_db\<close> the
  trace from interface A crosses cable 2 in both directions, every cable has a length,
  and \<open>is_definitive\<close> is \<open>False\<close>.
\<close>

theorem get_total_length_repeated_cable:
  "from_origin loopback_db False [if_a] = Some (Inr (Some loopback_path)) \<and>
   list_all (\<lambda>c. abs_length c \<noteq> None) (cables loopback_db) \<and>
   (case save loopback_db empty_store loopback_path of
      Inl e \<Rightarrow> False
    | Inr (cp, st) \<Rightarrow>
        get_cable_ids cp = Inr [1, 2, 3, 2, 4] \<and>
        get_total_length loopback_db cp = Inr (Some 41, False))"
  by code_simp

end
